theory Spec2Isabelle
  imports Main "HOL-Library.Char_ord" "HOL-Library.List_Lexorder"
begin

section \<open>Data model\<close>

text \<open>
  The node algebra of the array library, embedded from \<^verbatim>\<open>RecordArray.cpp\<close>,
  \<^verbatim>\<open>UnionArray.cpp\<close> and \<^verbatim>\<open>UnmaskedArray.cpp\<close>. A \<^verbatim>\<open>ContentPtr\<close> is a value of
  the datatype \<open>content\<close>; an \<^verbatim>\<open>Index8\<close>, \<^verbatim>\<open>Index32\<close>, \<^verbatim>\<open>IndexU32\<close> or \<^verbatim>\<open>Index64\<close>
  is the list of the integers its window shows. A thrown exception is the left injection of
  the result.
\<close>

type_synonym Parameters = "(string \<times> string) list"
type_synonym Identities = "int list"
type_synonym IdentitiesPtr = "Identities option"
type_synonym RecordLookup = "string list"
type_synonym RecordLookupPtr = "RecordLookup option"

datatype error =
    invalid_argument string
  | runtime_error string
  | failure string

text \<open>
  The instantiated classes of the two index templates: \<^verbatim>\<open>IndexedArrayOf<T, ISOPTION>\<close>
  and \<^verbatim>\<open>UnionArrayOf<int8_t, I>\<close>.
\<close>

datatype indexed_class =
    IndexedArray32 | IndexedArrayU32 | IndexedArray64
  | IndexedOptionArray32 | IndexedOptionArray64

datatype union_class = UnionArray8_32 | UnionArray8_U32 | UnionArray8_64

text \<open>
  The three classes of the source files are \<open>UnmaskedArray\<close>, \<open>RecordArray\<close> and
  \<open>UnionArrayOf\<close>, with the members the classes declare, in the order of their constructors.
  The other classes are the ones these files name in a \<^verbatim>\<open>dynamic_cast\<close>, with the members
  the files read (\<^verbatim>\<open>parameters()\<close>, \<^verbatim>\<open>content()\<close>), and \<open>OtherArray\<close> for every
  remaining class (\<^verbatim>\<open>NumpyArray\<close>, \<^verbatim>\<open>RegularArray\<close>, the list classes): its class name,
  buffers and children.
\<close>

datatype content =
    EmptyArray IdentitiesPtr Parameters
  | IndexedArrayOf indexed_class IdentitiesPtr Parameters "int list" content
  | ByteMaskedArray IdentitiesPtr Parameters "int list" content bool
  | BitMaskedArray IdentitiesPtr Parameters "int list" content bool bool int
  | UnmaskedArray IdentitiesPtr Parameters content
  | RecordArray IdentitiesPtr Parameters "content list" RecordLookupPtr int
  | UnionArrayOf union_class IdentitiesPtr Parameters "int list" "int list" "content list"
  | OtherArray string IdentitiesPtr Parameters "int list list" "content list"

text \<open>What \<^verbatim>\<open>getitem_at_nowrap\<close> returns: a \<^verbatim>\<open>Record\<close> (an array of records and a
  position in it), or what a class outside these files returns: a node or the missing value.\<close>

datatype item =
    Record content int
  | Item content
  | NoneItem

fun parameters :: "content \<Rightarrow> Parameters" where
  "parameters (EmptyArray ids ps) = ps"
| "parameters (IndexedArrayOf k ids ps ix c) = ps"
| "parameters (ByteMaskedArray ids ps m c vw) = ps"
| "parameters (BitMaskedArray ids ps m c vw lsb n) = ps"
| "parameters (UnmaskedArray ids ps c) = ps"
| "parameters (RecordArray ids ps cs rl n) = ps"
| "parameters (UnionArrayOf k ids ps tags ix cs) = ps"
| "parameters (OtherArray cn ids ps bufs cs) = ps"

fun identities :: "content \<Rightarrow> IdentitiesPtr" where
  "identities (EmptyArray ids ps) = ids"
| "identities (IndexedArrayOf k ids ps ix c) = ids"
| "identities (ByteMaskedArray ids ps m c vw) = ids"
| "identities (BitMaskedArray ids ps m c vw lsb n) = ids"
| "identities (UnmaskedArray ids ps c) = ids"
| "identities (RecordArray ids ps cs rl n) = ids"
| "identities (UnionArrayOf k ids ps tags ix cs) = ids"
| "identities (OtherArray cn ids ps bufs cs) = ids"

text \<open>The tests a \<^verbatim>\<open>dynamic_cast\<close> makes.\<close>

fun is_EmptyArray :: "content \<Rightarrow> bool" where
  "is_EmptyArray (EmptyArray ids ps) = True"
| "is_EmptyArray c = False"

fun is_UnionArray :: "content \<Rightarrow> bool" where
  "is_UnionArray (UnionArrayOf k ids ps tags ix cs) = True"
| "is_UnionArray c = False"

fun is_RecordArray :: "content \<Rightarrow> bool" where
  "is_RecordArray (RecordArray ids ps cs rl n) = True"
| "is_RecordArray c = False"

fun is_UnmaskedArray :: "content \<Rightarrow> bool" where
  "is_UnmaskedArray (UnmaskedArray ids ps c) = True"
| "is_UnmaskedArray c = False"

text \<open>
  The cast chain \<^verbatim>\<open>IndexedArray32\<close>, \<^verbatim>\<open>IndexedArrayU32\<close>, \<^verbatim>\<open>IndexedArray64\<close>,
  \<^verbatim>\<open>IndexedOptionArray32\<close>, \<^verbatim>\<open>IndexedOptionArray64\<close>, \<^verbatim>\<open>ByteMaskedArray\<close>,
  \<^verbatim>\<open>BitMaskedArray\<close>, \<^verbatim>\<open>UnmaskedArray\<close> of \<^verbatim>\<open>mergeable\<close>, \<^verbatim>\<open>merge\<close> and
  \<^verbatim>\<open>simplify_optiontype\<close>: the content of the node when one of the casts succeeds.
\<close>

fun indexed_or_option_content :: "content \<Rightarrow> content option" where
  "indexed_or_option_content (IndexedArrayOf IndexedArray32 ids ps ix c) = Some c"
| "indexed_or_option_content (IndexedArrayOf IndexedArrayU32 ids ps ix c) = Some c"
| "indexed_or_option_content (IndexedArrayOf IndexedArray64 ids ps ix c) = Some c"
| "indexed_or_option_content (IndexedArrayOf IndexedOptionArray32 ids ps ix c) = Some c"
| "indexed_or_option_content (IndexedArrayOf IndexedOptionArray64 ids ps ix c) = Some c"
| "indexed_or_option_content (ByteMaskedArray ids ps m c vw) = Some c"
| "indexed_or_option_content (BitMaskedArray ids ps m c vw lsb n) = Some c"
| "indexed_or_option_content (UnmaskedArray ids ps c) = Some c"
| "indexed_or_option_content c = None"

text \<open>The slice items of section 4.1; a null \<^verbatim>\<open>SliceItemPtr\<close> is \<open>None\<close>, and a \<^verbatim>\<open>Slice\<close> is
  the list of its items.\<close>

datatype SliceItem =
    SliceAt int
  | SliceRange int int int
  | SliceEllipsis
  | SliceNewAxis
  | SliceArray64 "int list" "int list"
  | SliceField string
  | SliceFields "string list"
  | SliceMissing64 "int list" SliceItem
  | SliceJagged64 "int list" SliceItem

type_synonym SliceItemPtr = "SliceItem option"
type_synonym Slice = "SliceItem list"

text \<open>
  The behaviour of the classes whose code is outside the three files, and of the kernels
  and base-class helpers the files call without defining them, is a parameter of the model:
  every function below takes it as its first argument.
\<close>

record ext =
  x_length :: "content \<Rightarrow> int"
  x_getitem_at_nowrap :: "content \<Rightarrow> int \<Rightarrow> error + item"
  x_getitem_range_nowrap :: "content \<Rightarrow> int \<Rightarrow> int \<Rightarrow> error + content"
  x_getitem_range :: "content \<Rightarrow> int \<Rightarrow> int \<Rightarrow> error + content"
  x_carry :: "content \<Rightarrow> int list \<Rightarrow> error + content"
  x_mergeable :: "content \<Rightarrow> content \<Rightarrow> bool \<Rightarrow> bool"
  x_merge :: "content \<Rightarrow> content \<Rightarrow> error + content"
  x_reverse_merge :: "content \<Rightarrow> content \<Rightarrow> error + content"
  x_axis_wrap_if_negative :: "content \<Rightarrow> int \<Rightarrow> error + int"
  x_regularize_rangeslice :: "int \<Rightarrow> int \<Rightarrow> bool \<Rightarrow> bool \<Rightarrow> bool \<Rightarrow> int \<Rightarrow> int \<times> int"
  x_Slice_none :: int
  x_Content_getitem_next :: "content \<Rightarrow> SliceItem \<Rightarrow> Slice \<Rightarrow> int list \<Rightarrow> error + content"
  x_unionarray_flatten_length :: "int list \<Rightarrow> int list \<Rightarrow> int list list \<Rightarrow> error + int"
  x_unionarray_flatten_combine ::
    "int list \<Rightarrow> int list \<Rightarrow> int list list \<Rightarrow> error + (int list \<times> int list \<times> int list)"

section \<open>Length and the constructors\<close>

text \<open>
  \<^verbatim>\<open>length()\<close>. \<^verbatim>\<open>UnmaskedArray::length\<close>, \<^verbatim>\<open>RecordArray::length\<close> and
  \<^verbatim>\<open>UnionArrayOf::length\<close> are the source's. Modelled from the spec: the length of the
  classes outside the files (section 3.2: \<open>Empty\<close> 0, \<open>Indexed\<close> and \<open>IndexedOption\<close>
  \<open>len(index)\<close>, \<open>ByteMasked\<close> \<open>len(mask)\<close>, \<open>BitMasked\<close> its \<open>length\<close>).
\<close>

fun length_of :: "ext \<Rightarrow> content \<Rightarrow> int" where
  "length_of X (EmptyArray ids ps) = 0"
| "length_of X (IndexedArrayOf k ids ps ix c) = int (length ix)"
| "length_of X (ByteMaskedArray ids ps m c vw) = int (length m)"
| "length_of X (BitMaskedArray ids ps m c vw lsb n) = n"
| "length_of X (UnmaskedArray ids ps c) = length_of X c"
| "length_of X (RecordArray ids ps cs rl n) = n"
| "length_of X (UnionArrayOf k ids ps tags ix cs) = int (length tags)"
| "length_of X (OtherArray cn ids ps bufs cs) = x_length X (OtherArray cn ids ps bufs cs)"

text \<open>\<^verbatim>\<open>RecordArray::RecordArray\<close> with an explicit length.\<close>

definition RecordArray_ctor ::
  "IdentitiesPtr \<Rightarrow> Parameters \<Rightarrow> content list \<Rightarrow> RecordLookupPtr \<Rightarrow> int \<Rightarrow> error + content" where
  "RecordArray_ctor ids ps contents recordlookup len =
     (case recordlookup of
        Some keys \<Rightarrow>
          if length keys \<noteq> length contents
          then Inl (invalid_argument ''recordlookup and contents must have the same number of fields'')
          else Inr (RecordArray ids ps contents recordlookup len)
      | None \<Rightarrow> Inr (RecordArray ids ps contents recordlookup len))"

text \<open>\<^verbatim>\<open>minlength\<close>: the loop keeps \<open>out\<close>, which starts at \<open>-1\<close>.\<close>

definition minlength_step :: "ext \<Rightarrow> int \<Rightarrow> content \<Rightarrow> int" where
  "minlength_step X out x =
     (let len = length_of X x in if out < 0 \<or> out > len then len else out)"

definition minlength :: "ext \<Rightarrow> content list \<Rightarrow> int" where
  "minlength X contents =
     (if contents = [] then 0 else foldl (minlength_step X) (- 1) contents)"

text \<open>\<^verbatim>\<open>RecordArray::RecordArray\<close> without a length (the four-argument constructor).\<close>

definition RecordArray_ctor4 ::
  "ext \<Rightarrow> IdentitiesPtr \<Rightarrow> Parameters \<Rightarrow> content list \<Rightarrow> RecordLookupPtr \<Rightarrow> error + content" where
  "RecordArray_ctor4 X ids ps contents recordlookup =
     RecordArray_ctor ids ps contents recordlookup (minlength X contents)"

text \<open>\<^verbatim>\<open>UnionArrayOf<T, I>::UnionArrayOf\<close>.\<close>

definition UnionArrayOf_ctor ::
  "union_class \<Rightarrow> IdentitiesPtr \<Rightarrow> Parameters \<Rightarrow> int list \<Rightarrow> int list \<Rightarrow> content list
     \<Rightarrow> error + content" where
  "UnionArrayOf_ctor k ids ps tags index contents =
     (if contents = [] then Inl (invalid_argument ''UnionArray must have at least one content'')
      else if length index < length tags
      then Inl (invalid_argument ''UnionArray index must not be shorter than its tags'')
      else Inr (UnionArrayOf k ids ps tags index contents))"

section \<open>Helpers of the base class and kernels\<close>

text \<open>Modelled from the spec: \<^verbatim>\<open>kMaxInt8\<close>, the largest \<^verbatim>\<open>int8_t\<close> (section 3.3: "a union
  may hold at most 127 arms (tag is i8)").\<close>

definition kMaxInt8 :: nat where
  "kMaxInt8 = 127"

text \<open>The value an \<^verbatim>\<open>int8_t\<close> holds after a store of \<open>x\<close>.\<close>

definition int8 :: "int \<Rightarrow> int" where
  "int8 x = (x + 128) mod 256 - 128"

text \<open>Modelled from the spec: \<^verbatim>\<open>Content::parameters_equal\<close> (section 9: "Parameters map:
  string to string, insertion order irrelevant; equality is set-wise").\<close>

definition parameters_equal :: "Parameters \<Rightarrow> Parameters \<Rightarrow> bool" where
  "parameters_equal self other = (set self = set other)"

text \<open>Running a loop body that may throw over a list: the first exception ends the loop.\<close>

fun mapM :: "('a \<Rightarrow> error + 'b) \<Rightarrow> 'a list \<Rightarrow> error + 'b list" where
  "mapM f [] = Inr []"
| "mapM f (x # xs) =
     (case f x of
        Inl e \<Rightarrow> Inl e
      | Inr y \<Rightarrow> (case mapM f xs of Inl e \<Rightarrow> Inl e | Inr ys \<Rightarrow> Inr (y # ys)))"

lemma mapM_cong [fundef_cong]:
  assumes "xs = ys" and "\<And>x. x \<in> set ys \<Longrightarrow> f x = g x"
  shows "mapM f xs = mapM g ys"
proof -
  have "mapM f ys = mapM g ys"
    using assms(2) by (induction ys) (simp_all split: sum.splits)
  then show ?thesis using assms(1) by simp
qed

fun foldM :: "('s \<Rightarrow> 'a \<Rightarrow> error + 's) \<Rightarrow> 's \<Rightarrow> 'a list \<Rightarrow> error + 's" where
  "foldM f s [] = Inr s"
| "foldM f s (x # xs) = (case f s x of Inl e \<Rightarrow> Inl e | Inr s' \<Rightarrow> foldM f s' xs)"

text \<open>
  \<^verbatim>\<open>Index8 tags(n)\<close> and \<^verbatim>\<open>Index64 index(n)\<close> allocate \<open>n\<close> cells, which the source does
  not initialise; the model holds 0 in them. A kernel that fills \<open>length\<close> cells from
  \<open>offset\<close> on replaces that part of the buffer.
\<close>

definition new_Index :: "int \<Rightarrow> int list" where
  "new_Index n = replicate (nat n) 0"

definition write_at :: "int list \<Rightarrow> int \<Rightarrow> int list \<Rightarrow> int list" where
  "write_at buf offset vals =
     take (nat offset) buf @ vals @ drop (nat offset + length vals) buf"

text \<open>\<^verbatim>\<open>Index::getitem_range_nowrap\<close>: the window from \<open>start\<close> to \<open>stop\<close>.\<close>

definition Index_getitem_range_nowrap :: "int list \<Rightarrow> int \<Rightarrow> int \<Rightarrow> int list" where
  "Index_getitem_range_nowrap ix start stop = take (nat (stop - start)) (drop (nat start) ix)"

text \<open>
  Modelled from the spec: the kernels of section 6.1, which the three files call and do not
  define. \<^verbatim>\<open>awkward_carry_arange_64\<close> counts from 0;
  \<^verbatim>\<open>awkward_unionarray_filltags_to8_const\<close> stores one tag and
  \<^verbatim>\<open>awkward_unionarray_fillindex_to64_count\<close> the positions 0, 1, 2, ... in \<open>length\<close> cells
  from \<open>offset\<close> on; \<^verbatim>\<open>awkward_unionarray_filltags_to8_from8\<close> copies tags, each moved up
  by \<open>base\<close> (section 4.6: "rebasing the second's tags"), and
  \<^verbatim>\<open>awkward_unionarray_fillindex_to64_from32\<close>, \<^verbatim>\<open>_fromU32\<close> and \<^verbatim>\<open>_from64\<close> copy an
  index, widened to 64 bits, which keeps the values.
\<close>

definition awkward_carry_arange_64 :: "int \<Rightarrow> int list" where
  "awkward_carry_arange_64 len = map int [0..<nat len]"

definition awkward_unionarray_filltags_to8_const ::
  "int list \<Rightarrow> int \<Rightarrow> int \<Rightarrow> int \<Rightarrow> int list" where
  "awkward_unionarray_filltags_to8_const totags totagsoffset len base =
     write_at totags totagsoffset (replicate (nat len) (int8 base))"

definition awkward_unionarray_fillindex_to64_count ::
  "int list \<Rightarrow> int \<Rightarrow> int \<Rightarrow> int list" where
  "awkward_unionarray_fillindex_to64_count toindex toindexoffset len =
     write_at toindex toindexoffset (map int [0..<nat len])"

definition awkward_unionarray_filltags_to8_from8 ::
  "int list \<Rightarrow> int \<Rightarrow> int list \<Rightarrow> int \<Rightarrow> int \<Rightarrow> int list" where
  "awkward_unionarray_filltags_to8_from8 totags totagsoffset fromtags len base =
     write_at totags totagsoffset (map (\<lambda>t. int8 (t + base)) (take (nat len) fromtags))"

definition awkward_unionarray_fillindex_to64_from ::
  "int list \<Rightarrow> int \<Rightarrow> int list \<Rightarrow> int \<Rightarrow> int list" where
  "awkward_unionarray_fillindex_to64_from toindex toindexoffset fromindex len =
     write_at toindex toindexoffset (take (nat len) fromindex)"

text \<open>
  Modelled from the spec: \<^verbatim>\<open>awkward_index_carry_64\<close> gathers \<open>fromindex[carry[i]]\<close> and
  fails on a position outside the buffer; \<^verbatim>\<open>awkward_index_carry_nocheck_64\<close> gathers
  without the test (section 4.5: "Union gathers tags and index in parallel").
\<close>

definition awkward_index_carry_64 :: "int list \<Rightarrow> int list \<Rightarrow> int \<Rightarrow> error + int list" where
  "awkward_index_carry_64 fromindex carry lenfromindex =
     (if list_all (\<lambda>j. 0 \<le> j \<and> j < lenfromindex \<and> nat j < length fromindex) carry
      then Inr (map (\<lambda>j. fromindex ! nat j) carry)
      else Inl (failure ''index out of range''))"

definition awkward_index_carry_nocheck_64 :: "int list \<Rightarrow> int list \<Rightarrow> int list" where
  "awkward_index_carry_nocheck_64 fromindex carry = map (\<lambda>j. fromindex ! nat j) carry"

text \<open>
  Modelled from the spec: the identities of a node are one label for each row (section 3.2);
  \<^verbatim>\<open>Identities::getitem_range_nowrap\<close> is the window and
  \<^verbatim>\<open>Identities::getitem_carry_64\<close> the gather, which fails outside the rows.
\<close>

definition Identities_getitem_range_nowrap :: "IdentitiesPtr \<Rightarrow> int \<Rightarrow> int \<Rightarrow> IdentitiesPtr" where
  "Identities_getitem_range_nowrap ids start stop =
     (case ids of
        None \<Rightarrow> None
      | Some rows \<Rightarrow> Some (Index_getitem_range_nowrap rows start stop))"

definition Identities_getitem_carry_64 :: "IdentitiesPtr \<Rightarrow> int list \<Rightarrow> error + IdentitiesPtr" where
  "Identities_getitem_carry_64 ids carry =
     (case ids of
        None \<Rightarrow> Inr None
      | Some rows \<Rightarrow>
          (case awkward_index_carry_64 rows carry (int (length rows)) of
             Inl e \<Rightarrow> Inl e
           | Inr rows' \<Rightarrow> Inr (Some rows')))"

text \<open>
  Modelled from the spec: \<^verbatim>\<open>Content::merge_as_union\<close> (section 4.6, step 1: "wrap both in a
  two-arm Union<i8,i64> with identity index"): the rows of \<open>self\<close> have tag 0, the rows of
  \<open>other\<close> tag 1, and each row points at its own position in its arm. Like every union the
  three files build for a merge, it has no identities and no parameters.
\<close>

definition merge_as_union :: "ext \<Rightarrow> content \<Rightarrow> content \<Rightarrow> error + content" where
  "merge_as_union X self other =
     (let mylength = length_of X self;
          theirlength = length_of X other
      in Inr (UnionArrayOf UnionArray8_64 None []
                (replicate (nat mylength) 0 @ replicate (nat theirlength) 1)
                (map int [0..<nat mylength] @ map int [0..<nat theirlength])
                [self, other]))"

section \<open>Ranges and carry\<close>

text \<open>\<^verbatim>\<open>getitem_range_nowrap\<close> of the three classes; a record does not cut its identities.\<close>

fun getitem_range_nowrap :: "ext \<Rightarrow> content \<Rightarrow> int \<Rightarrow> int \<Rightarrow> error + content" where
  "getitem_range_nowrap X (RecordArray ids ps cs rl n) start stop =
     (if cs = [] then RecordArray_ctor ids ps cs rl (stop - start)
      else
        (case mapM (\<lambda>c. getitem_range_nowrap X c start stop) cs of
           Inl e \<Rightarrow> Inl e
         | Inr contents \<Rightarrow> RecordArray_ctor ids ps contents rl (stop - start)))"
| "getitem_range_nowrap X (UnionArrayOf k ids ps tags index cs) start stop =
     UnionArrayOf_ctor k (Identities_getitem_range_nowrap ids start stop) ps
       (Index_getitem_range_nowrap tags start stop)
       (Index_getitem_range_nowrap index start stop) cs"
| "getitem_range_nowrap X (UnmaskedArray ids ps c) start stop =
     (case getitem_range_nowrap X c start stop of
        Inl e \<Rightarrow> Inl e
      | Inr c' \<Rightarrow> Inr (UnmaskedArray (Identities_getitem_range_nowrap ids start stop) ps c'))"
| "getitem_range_nowrap X c start stop = x_getitem_range_nowrap X c start stop"

text \<open>\<^verbatim>\<open>carry\<close> of the three classes.\<close>

fun carry :: "ext \<Rightarrow> content \<Rightarrow> int list \<Rightarrow> error + content" where
  "carry X (RecordArray ids ps cs rl n) ix =
     (case mapM (\<lambda>c. carry X c ix) cs of
        Inl e \<Rightarrow> Inl e
      | Inr contents \<Rightarrow>
          (case Identities_getitem_carry_64 ids ix of
             Inl e \<Rightarrow> Inl e
           | Inr ids' \<Rightarrow> RecordArray_ctor ids' ps contents rl (int (length ix))))"
| "carry X (UnmaskedArray ids ps c) ix =
     (case Identities_getitem_carry_64 ids ix of
        Inl e \<Rightarrow> Inl e
      | Inr ids' \<Rightarrow>
          (case carry X c ix of
             Inl e \<Rightarrow> Inl e
           | Inr c' \<Rightarrow> Inr (UnmaskedArray ids' ps c')))"
| "carry X (UnionArrayOf k ids ps tags index cs) ix =
     (if length index < length tags then Inl (failure ''len(index) < len(tags)'')
      else
        (case awkward_index_carry_64 tags ix (int (length tags)) of
           Inl e \<Rightarrow> Inl e
         | Inr nexttags \<Rightarrow>
             (case Identities_getitem_carry_64 ids ix of
                Inl e \<Rightarrow> Inl e
              | Inr ids' \<Rightarrow>
                  UnionArrayOf_ctor k ids' ps nexttags
                    (awkward_index_carry_nocheck_64 index ix) cs)))"
| "carry X c ix = x_carry X c ix"

section \<open>Mergeability\<close>

text \<open>
  Modelled from the spec: \<^verbatim>\<open>util::fieldindex\<close>, behind \<^verbatim>\<open>RecordArray::field(key)\<close>
  (section 3.3: "recordlookup, when present, has the same size as contents; every key is
  unique"): the field of a key is the one at the key's position in \<open>recordlookup\<close>. The
  keys of a record that is not a tuple are its \<open>recordlookup\<close>.
\<close>

fun fieldindex :: "RecordLookup \<Rightarrow> string \<Rightarrow> nat option" where
  "fieldindex [] key = None"
| "fieldindex (k # ks) key = (if k = key then Some 0 else map_option Suc (fieldindex ks key))"

definition field_of_key :: "content list \<Rightarrow> RecordLookup \<Rightarrow> string \<Rightarrow> content option" where
  "field_of_key contents recordlookup key =
     (case fieldindex recordlookup key of
        None \<Rightarrow> None
      | Some i \<Rightarrow> if i < length contents then Some (contents ! i) else None)"

lemma field_of_key_size [termination_simp]:
  "field_of_key cs ks key = Some a \<Longrightarrow> size a < Suc (size_list size cs)"
proof -
  assume "field_of_key cs ks key = Some a"
  then have "a \<in> set cs"
    by (auto simp: field_of_key_def split: option.splits if_splits)
  then have "size a \<le> size_list size cs"
    by (rule size_list_estimation') simp
  then show ?thesis by simp
qed

lemma indexed_or_option_content_size [termination_simp]:
  "indexed_or_option_content other = Some c \<Longrightarrow> size c < size other"
  by (induction other rule: indexed_or_option_content.induct) auto

lemma zip_size_left [termination_simp]:
  "(a, b) \<in> set (zip cs ocs) \<Longrightarrow> size a < Suc (size_list size cs)"
proof -
  assume "(a, b) \<in> set (zip cs ocs)"
  then have "a \<in> set cs" by (rule set_zip_leftD)
  then have "size a \<le> size_list size cs"
    by (rule size_list_estimation') simp
  then show ?thesis by simp
qed

text \<open>
  \<^verbatim>\<open>mergeable\<close> of the three classes. In \<^verbatim>\<open>RecordArray::mergeable\<close> the loop over the
  fields returns false at the first field that is not mergeable and true at its end.
\<close>

fun mergeable :: "ext \<Rightarrow> content \<Rightarrow> content \<Rightarrow> bool \<Rightarrow> bool" where
  "mergeable X (RecordArray ids ps cs rl n) other mergebool =
     (if \<not> parameters_equal ps (parameters other) then False
      else if is_EmptyArray other \<or> is_UnionArray other then True
      else
        (case indexed_or_option_content other of
           Some c \<Rightarrow> mergeable X (RecordArray ids ps cs rl n) c mergebool
         | None \<Rightarrow>
             (case other of
                RecordArray oids ops ocs orl on \<Rightarrow>
                  (case rl of
                     None \<Rightarrow>
                       (case orl of
                          None \<Rightarrow>
                            if length cs = length ocs
                            then list_all (\<lambda>(a, b). mergeable X a b mergebool) (zip cs ocs)
                            else False
                        | Some oks \<Rightarrow> False)
                   | Some ks \<Rightarrow>
                       (case orl of
                          None \<Rightarrow> False
                        | Some oks \<Rightarrow>
                            if sort ks = sort oks
                            then list_all
                                   (\<lambda>key.
                                      case field_of_key cs ks key of
                                        None \<Rightarrow> False
                                      | Some a \<Rightarrow>
                                          (case field_of_key ocs oks key of
                                             None \<Rightarrow> False
                                           | Some b \<Rightarrow> mergeable X a b mergebool))
                                   (sort ks)
                            else False))
              | _ \<Rightarrow> False)))"
| "mergeable X (UnmaskedArray ids ps c) other mergebool =
     (if \<not> parameters_equal ps (parameters other) then False
      else if is_EmptyArray other \<or> is_UnionArray other then True
      else
        (case indexed_or_option_content other of
           Some oc \<Rightarrow> mergeable X c oc mergebool
         | None \<Rightarrow> mergeable X c other mergebool))"
| "mergeable X (UnionArrayOf k ids ps tags index cs) other mergebool =
     (if \<not> parameters_equal ps (parameters other) then False else True)"
| "mergeable X c other mergebool = x_mergeable X c other mergebool"

section \<open>Merging\<close>

text \<open>\<^verbatim>\<open>classname()\<close>, for the message of \<^verbatim>\<open>RecordArray::merge\<close>.\<close>

fun classname :: "content \<Rightarrow> string" where
  "classname (EmptyArray ids ps) = ''EmptyArray''"
| "classname (IndexedArrayOf k ids ps ix c) =
     (case k of
        IndexedArray32 \<Rightarrow> ''IndexedArray32''
      | IndexedArrayU32 \<Rightarrow> ''IndexedArrayU32''
      | IndexedArray64 \<Rightarrow> ''IndexedArray64''
      | IndexedOptionArray32 \<Rightarrow> ''IndexedOptionArray32''
      | IndexedOptionArray64 \<Rightarrow> ''IndexedOptionArray64'')"
| "classname (ByteMaskedArray ids ps m c vw) = ''ByteMaskedArray''"
| "classname (BitMaskedArray ids ps m c vw lsb n) = ''BitMaskedArray''"
| "classname (UnmaskedArray ids ps c) = ''UnmaskedArray''"
| "classname (RecordArray ids ps cs rl n) = ''RecordArray''"
| "classname (UnionArrayOf k ids ps tags ix cs) =
     (case k of
        UnionArray8_32 \<Rightarrow> ''UnionArray8_32''
      | UnionArray8_U32 \<Rightarrow> ''UnionArray8_U32''
      | UnionArray8_64 \<Rightarrow> ''UnionArray8_64'')"
| "classname (OtherArray cn ids ps bufs cs) = cn"

text \<open>\<^verbatim>\<open>UnmaskedArray::toIndexedOptionArray64\<close>.\<close>

definition UnmaskedArray_toIndexedOptionArray64 ::
  "ext \<Rightarrow> IdentitiesPtr \<Rightarrow> Parameters \<Rightarrow> content \<Rightarrow> content" where
  "UnmaskedArray_toIndexedOptionArray64 X ids ps cont =
     IndexedArrayOf IndexedOptionArray64 ids ps
       (awkward_carry_arange_64 (length_of X cont)) cont"

text \<open>\<^verbatim>\<open>UnmaskedArray::reverse_merge\<close> and \<^verbatim>\<open>UnmaskedArray::merge\<close>: both hand over to
  the \<^verbatim>\<open>IndexedOptionArray64\<close> the node converts to, a class outside the files.\<close>

definition UnmaskedArray_reverse_merge ::
  "ext \<Rightarrow> IdentitiesPtr \<Rightarrow> Parameters \<Rightarrow> content \<Rightarrow> content \<Rightarrow> error + content" where
  "UnmaskedArray_reverse_merge X ids ps cont other =
     x_reverse_merge X (UnmaskedArray_toIndexedOptionArray64 X ids ps cont) other"

definition UnmaskedArray_merge ::
  "ext \<Rightarrow> IdentitiesPtr \<Rightarrow> Parameters \<Rightarrow> content \<Rightarrow> content \<Rightarrow> error + content" where
  "UnmaskedArray_merge X ids ps cont other =
     x_merge X (UnmaskedArray_toIndexedOptionArray64 X ids ps cont) other"

text \<open>
  \<^verbatim>\<open>UnionArrayOf<T, I>::reverse_merge\<close>. \<open>T\<close> is \<^verbatim>\<open>int8_t\<close> in each instantiated class,
  and the three branches on \<open>I\<close> call the index kernel of that width.
\<close>

definition UnionArrayOf_reverse_merge ::
  "ext \<Rightarrow> union_class \<Rightarrow> IdentitiesPtr \<Rightarrow> Parameters \<Rightarrow> int list \<Rightarrow> int list \<Rightarrow> content list
     \<Rightarrow> content \<Rightarrow> error + content" where
  "UnionArrayOf_reverse_merge X k ids ps self_tags self_index self_contents other =
     (let theirlength = length_of X other;
          mylength = int (length self_tags);
          tags0 = new_Index (theirlength + mylength);
          index0 = new_Index (theirlength + mylength);
          contents = other # self_contents;
          tags1 = awkward_unionarray_filltags_to8_const tags0 0 theirlength 0;
          index1 = awkward_unionarray_fillindex_to64_count index0 0 theirlength;
          tags2 = awkward_unionarray_filltags_to8_from8 tags1 theirlength self_tags mylength 1;
          index2 = awkward_unionarray_fillindex_to64_from index1 theirlength self_index mylength
      in if length contents > kMaxInt8
         then Inl (runtime_error ''FIXME: handle UnionArray with more than 127 contents'')
         else UnionArrayOf_ctor UnionArray8_64 None [] tags2 index2 contents)"

text \<open>\<^verbatim>\<open>UnionArrayOf<T, I>::merge\<close>; the three casts of \<open>other\<close> to a union class run the same
  statements, up to the width of the index kernel.\<close>

definition UnionArrayOf_merge ::
  "ext \<Rightarrow> union_class \<Rightarrow> IdentitiesPtr \<Rightarrow> Parameters \<Rightarrow> int list \<Rightarrow> int list \<Rightarrow> content list
     \<Rightarrow> content \<Rightarrow> error + content" where
  "UnionArrayOf_merge X k ids ps self_tags self_index self_contents other =
     (if \<not> parameters_equal ps (parameters other)
      then merge_as_union X (UnionArrayOf k ids ps self_tags self_index self_contents) other
      else if is_EmptyArray other
      then UnionArrayOf_ctor k ids ps self_tags self_index self_contents
      else
        (let mylength = int (length self_tags);
             theirlength = length_of X other;
             tags0 = new_Index (mylength + theirlength);
             index0 = new_Index (mylength + theirlength);
             tags1 = awkward_unionarray_filltags_to8_from8 tags0 0 self_tags mylength 0;
             index1 = awkward_unionarray_fillindex_to64_from index0 0 self_index mylength;
             numcontents = int (length self_contents);
             (contents, tags2, index2) =
               (case other of
                  UnionArrayOf ok oids ops other_tags other_index other_contents \<Rightarrow>
                    (self_contents @ other_contents,
                     awkward_unionarray_filltags_to8_from8 tags1 mylength other_tags
                       theirlength numcontents,
                     awkward_unionarray_fillindex_to64_from index1 mylength other_index
                       theirlength)
                | _ \<Rightarrow>
                    (self_contents @ [other],
                     awkward_unionarray_filltags_to8_const tags1 mylength theirlength numcontents,
                     awkward_unionarray_fillindex_to64_count index1 mylength theirlength))
         in if length contents > kMaxInt8
            then Inl (runtime_error ''FIXME: handle UnionArray with more than 127 contents'')
            else UnionArrayOf_ctor UnionArray8_64 None [] tags2 index2 contents))"

text \<open>
  \<^verbatim>\<open>RecordArray::merge\<close>. \<open>M\<close> is the \<^verbatim>\<open>merge\<close> the loop calls on a field of \<open>self\<close> and
  the field of \<open>other\<close>, both cut to the length of their record.
\<close>

definition RecordArray_merge_field ::
  "ext \<Rightarrow> (content \<Rightarrow> content \<Rightarrow> error + content) \<Rightarrow> int \<Rightarrow> int \<Rightarrow> content \<Rightarrow> content
     \<Rightarrow> error + content" where
  "RecordArray_merge_field X M mylength theirlength myfield theirfield =
     (case getitem_range_nowrap X myfield 0 mylength of
        Inl e \<Rightarrow> Inl e
      | Inr mine \<Rightarrow>
          (case getitem_range_nowrap X theirfield 0 theirlength of
             Inl e \<Rightarrow> Inl e
           | Inr theirs \<Rightarrow> M mine theirs))"

definition RecordArray_merge ::
  "ext \<Rightarrow> (content \<Rightarrow> content \<Rightarrow> error + content) \<Rightarrow> IdentitiesPtr \<Rightarrow> Parameters
     \<Rightarrow> content list \<Rightarrow> RecordLookupPtr \<Rightarrow> int \<Rightarrow> content \<Rightarrow> error + content" where
  "RecordArray_merge X M ids ps cs rl n other =
     (if \<not> parameters_equal ps (parameters other)
      then merge_as_union X (RecordArray ids ps cs rl n) other
      else
        (case other of
           EmptyArray oids ops \<Rightarrow> RecordArray_ctor ids ps cs rl n
         | IndexedArrayOf ok oids ops oix oc \<Rightarrow>
             (case RecordArray_ctor ids ps cs rl n of
                Inl e \<Rightarrow> Inl e
              | Inr self \<Rightarrow> x_reverse_merge X other self)
         | ByteMaskedArray oids ops om oc ovw \<Rightarrow>
             (case RecordArray_ctor ids ps cs rl n of
                Inl e \<Rightarrow> Inl e
              | Inr self \<Rightarrow> x_reverse_merge X other self)
         | BitMaskedArray oids ops om oc ovw olsb on \<Rightarrow>
             (case RecordArray_ctor ids ps cs rl n of
                Inl e \<Rightarrow> Inl e
              | Inr self \<Rightarrow> x_reverse_merge X other self)
         | UnmaskedArray oids ops oc \<Rightarrow>
             (case RecordArray_ctor ids ps cs rl n of
                Inl e \<Rightarrow> Inl e
              | Inr self \<Rightarrow> UnmaskedArray_reverse_merge X oids ops oc self)
         | UnionArrayOf ok oids ops otags oindex ocs \<Rightarrow>
             (case RecordArray_ctor ids ps cs rl n of
                Inl e \<Rightarrow> Inl e
              | Inr self \<Rightarrow> UnionArrayOf_reverse_merge X ok oids ops otags oindex ocs self)
         | RecordArray oids ops ocs orl on \<Rightarrow>
             (let mylength = n; theirlength = on
              in if (rl = None) = (orl = None) \<and> cs = [] \<and> ocs = []
                 then RecordArray_ctor None [] cs None (mylength + theirlength)
                 else
                   (case rl of
                      None \<Rightarrow>
                        (case orl of
                           None \<Rightarrow>
                             if length cs = length ocs
                             then
                               (case mapM (\<lambda>(a, b). RecordArray_merge_field X M mylength
                                                       theirlength a b) (zip cs ocs) of
                                  Inl e \<Rightarrow> Inl e
                                | Inr contents \<Rightarrow> RecordArray_ctor4 X None [] contents rl)
                             else Inl (invalid_argument
                                         ''cannot merge records or tuples with different fields'')
                         | Some oks \<Rightarrow>
                             Inl (invalid_argument
                                    ''cannot merge records or tuples with different fields''))
                    | Some ks \<Rightarrow>
                        (case orl of
                           None \<Rightarrow>
                             Inl (invalid_argument
                                    ''cannot merge records or tuples with different fields'')
                         | Some oks \<Rightarrow>
                             if sort ks = sort oks
                             then
                               (case mapM
                                       (\<lambda>key.
                                          case field_of_key cs ks key of
                                            None \<Rightarrow> Inl (invalid_argument ''key not found'')
                                          | Some a \<Rightarrow>
                                              (case field_of_key ocs oks key of
                                                 None \<Rightarrow> Inl (invalid_argument ''key not found'')
                                               | Some b \<Rightarrow>
                                                   RecordArray_merge_field X M mylength
                                                     theirlength a b))
                                       ks of
                                  Inl e \<Rightarrow> Inl e
                                | Inr contents \<Rightarrow> RecordArray_ctor4 X None [] contents rl)
                             else Inl (invalid_argument
                                         ''cannot merge records or tuples with different fields''))))
         | OtherArray ocn oids ops obufs ocs \<Rightarrow>
             Inl (invalid_argument (''cannot merge RecordArray with '' @ ocn))))"

text \<open>
  \<^verbatim>\<open>merge\<close> as the virtual call resolves it. The recursion of \<^verbatim>\<open>RecordArray::merge\<close>
  follows the nesting of records in \<open>self\<close>: \<open>merge_d\<close> takes the number of record levels
  it may still descend, and \<open>merge\<close> starts it with the nesting depth of \<open>self\<close>. The
  classes outside the files merge by \<open>x_merge\<close>.
\<close>

primrec merge_d :: "nat \<Rightarrow> ext \<Rightarrow> content \<Rightarrow> content \<Rightarrow> error + content" where
  "merge_d 0 X self other =
     (case self of
        RecordArray ids ps cs rl n \<Rightarrow>
          RecordArray_merge X (\<lambda>a b. Inl (runtime_error ''merge: nesting exceeded'')) ids ps cs rl n
            other
      | UnionArrayOf k ids ps tags index cs \<Rightarrow> UnionArrayOf_merge X k ids ps tags index cs other
      | UnmaskedArray ids ps c \<Rightarrow> UnmaskedArray_merge X ids ps c other
      | _ \<Rightarrow> x_merge X self other)"
| "merge_d (Suc d) X self other =
     (case self of
        RecordArray ids ps cs rl n \<Rightarrow> RecordArray_merge X (merge_d d X) ids ps cs rl n other
      | UnionArrayOf k ids ps tags index cs \<Rightarrow> UnionArrayOf_merge X k ids ps tags index cs other
      | UnmaskedArray ids ps c \<Rightarrow> UnmaskedArray_merge X ids ps c other
      | _ \<Rightarrow> x_merge X self other)"

fun record_depth :: "content \<Rightarrow> nat" where
  "record_depth (RecordArray ids ps cs rl n) = Suc (fold max (map record_depth cs) 0)"
| "record_depth c = 0"

definition merge :: "ext \<Rightarrow> content \<Rightarrow> content \<Rightarrow> error + content" where
  "merge X self other = merge_d (record_depth self) X self other"

section \<open>Union-type simplification\<close>

text \<open>
  Modelled from the spec: the kernels \<^verbatim>\<open>awkward_unionarray_simplify8_32_to8_64\<close>,
  \<^verbatim>\<open>_simplify8_U32_to8_64\<close> and \<^verbatim>\<open>_simplify8_64_to8_64\<close> (one model for the three widths of
  the inner index) and \<^verbatim>\<open>awkward_unionarray_simplify_one_to8_64\<close> (section 4.4: "fill
  (tags,index) so that positions where self.tags==i and inner.tags==j remap to canonical arm k
  with index offset by len(canonical[k])"). A row that is not hit keeps what the buffers hold.
\<close>

definition awkward_unionarray_simplify_to8_64 ::
  "int list \<Rightarrow> int list \<Rightarrow> int list \<Rightarrow> int list \<Rightarrow> int list \<Rightarrow> int list
     \<Rightarrow> int \<Rightarrow> int \<Rightarrow> int \<Rightarrow> int \<Rightarrow> int \<Rightarrow> int list \<times> int list" where
  "awkward_unionarray_simplify_to8_64 totags toindex outertags outerindex innertags innerindex
       towhich innerwhich outerwhich len base =
     (let hit = (\<lambda>i. int i < len \<and> outertags ! i = outerwhich
                      \<and> innertags ! nat (outerindex ! i) = innerwhich)
      in (map (\<lambda>i. if hit i then int8 towhich else totags ! i) [0..<length totags],
          map (\<lambda>i. if hit i then innerindex ! nat (outerindex ! i) + base else toindex ! i)
            [0..<length toindex]))"

definition awkward_unionarray_simplify_one_to8_64 ::
  "int list \<Rightarrow> int list \<Rightarrow> int list \<Rightarrow> int list \<Rightarrow> int \<Rightarrow> int \<Rightarrow> int \<Rightarrow> int
     \<Rightarrow> int list \<times> int list" where
  "awkward_unionarray_simplify_one_to8_64 totags toindex fromtags fromindex
       towhich fromwhich len base =
     (let hit = (\<lambda>i. int i < len \<and> fromtags ! i = fromwhich)
      in (map (\<lambda>i. if hit i then int8 towhich else totags ! i) [0..<length totags],
          map (\<lambda>i. if hit i then fromindex ! i + base else toindex ! i) [0..<length toindex]))"

text \<open>
  The body the source repeats for each content it places: the loop over \<open>k\<close> stops at the
  first canonical content that is mergeable with \<open>c\<close>, fills the rows by the kernel and merges;
  without one, the kernel fills the rows for a new arm and \<open>c\<close> is appended. \<open>fill\<close> is the
  kernel call with all arguments but \<open>towhich\<close>, \<open>base\<close> and the two buffers.
\<close>

type_synonym simplify_state = "int list \<times> int list \<times> content list"

definition simplify_place ::
  "ext \<Rightarrow> bool \<Rightarrow> (int \<Rightarrow> int \<Rightarrow> int list \<Rightarrow> int list \<Rightarrow> int list \<times> int list) \<Rightarrow> content
     \<Rightarrow> simplify_state \<Rightarrow> error + simplify_state" where
  "simplify_place X mergebool fill c st =
     (case st of
        (tags, index, contents) \<Rightarrow>
          (case find (\<lambda>k. mergeable X (contents ! k) c mergebool) [0..<length contents] of
             Some k \<Rightarrow>
               (case fill (int k) (length_of X (contents ! k)) tags index of
                  (tags', index') \<Rightarrow>
                    (case merge X (contents ! k) c of
                       Inl e \<Rightarrow> Inl e
                     | Inr m \<Rightarrow> Inr (tags', index', contents[k := m])))
           | None \<Rightarrow>
               (case fill (int (length contents)) 0 tags index of
                  (tags', index') \<Rightarrow> Inr (tags', index', contents @ [c]))))"

text \<open>One round of the loop over \<open>i\<close>: a content that is a union gives its contents one by one
  (the loop over \<open>j\<close>), any other content gives itself.\<close>

definition simplify_arm ::
  "ext \<Rightarrow> bool \<Rightarrow> int list \<Rightarrow> int list \<Rightarrow> content list \<Rightarrow> simplify_state \<Rightarrow> nat
     \<Rightarrow> error + simplify_state" where
  "simplify_arm X mergebool self_tags self_index self_contents st i =
     (let len = int (length self_tags)
      in case self_contents ! i of
           UnionArrayOf ik iids ips innertags innerindex innercontents \<Rightarrow>
             foldM (\<lambda>st' j.
                      simplify_place X mergebool
                        (\<lambda>towhich base tags index.
                           awkward_unionarray_simplify_to8_64 tags index self_tags self_index
                             innertags innerindex towhich (int j) (int i) len base)
                        (innercontents ! j) st')
               st [0..<length innercontents]
         | c \<Rightarrow>
             simplify_place X mergebool
               (\<lambda>towhich base tags index.
                  awkward_unionarray_simplify_one_to8_64 tags index self_tags self_index
                    towhich (int i) len base)
               c st)"

text \<open>The canonical tags, index and contents at the end of the loops.\<close>

definition simplify_canonical ::
  "ext \<Rightarrow> bool \<Rightarrow> int list \<Rightarrow> int list \<Rightarrow> content list \<Rightarrow> error + simplify_state" where
  "simplify_canonical X mergebool self_tags self_index self_contents =
     (let len = int (length self_tags)
      in foldM (simplify_arm X mergebool self_tags self_index self_contents)
           (new_Index len, new_Index len, []) [0..<length self_contents])"

text \<open>\<^verbatim>\<open>UnionArrayOf<T, I>::simplify_uniontype\<close>.\<close>

definition UnionArrayOf_simplify_uniontype ::
  "ext \<Rightarrow> bool \<Rightarrow> union_class \<Rightarrow> IdentitiesPtr \<Rightarrow> Parameters \<Rightarrow> int list \<Rightarrow> int list
     \<Rightarrow> content list \<Rightarrow> error + content" where
  "UnionArrayOf_simplify_uniontype X mergebool k ids ps self_tags self_index self_contents =
     (if length self_index < length self_tags then Inl (failure ''len(index) < len(tags)'')
      else
        (case simplify_canonical X mergebool self_tags self_index self_contents of
           Inl e \<Rightarrow> Inl e
         | Inr (tags, index, contents) \<Rightarrow>
             if length contents > kMaxInt8
             then Inl (runtime_error ''FIXME: handle UnionArray with more than 127 contents'')
             else if length contents = 1 then carry X (contents ! 0) index
             else UnionArrayOf_ctor UnionArray8_64 ids ps tags index contents))"

section \<open>Projection and getitem_next of a union\<close>

text \<open>
  Modelled from the spec: the kernels \<^verbatim>\<open>awkward_unionarray_regular_index\<close> (a counter for
  each tag, read and advanced at each row) and \<^verbatim>\<open>awkward_unionarray_project_64\<close> (the index
  of each row whose tag is \<open>which\<close>, in the order of the rows; section 4.5).
\<close>

fun regular_index_loop :: "(int \<Rightarrow> int) \<Rightarrow> int list \<Rightarrow> int list" where
  "regular_index_loop count [] = []"
| "regular_index_loop count (tag # fromtags) =
     count tag # regular_index_loop (count(tag := count tag + 1)) fromtags"

definition awkward_unionarray_regular_index :: "int list \<Rightarrow> int \<Rightarrow> int list" where
  "awkward_unionarray_regular_index fromtags len =
     regular_index_loop (\<lambda>tag. 0) (take (nat len) fromtags)"

fun project_loop :: "int list \<Rightarrow> int list \<Rightarrow> int \<Rightarrow> int list" where
  "project_loop (tag # fromtags) (x # fromindex) which =
     (if tag = which then x # project_loop fromtags fromindex which
      else project_loop fromtags fromindex which)"
| "project_loop fromtags fromindex which = []"

definition awkward_unionarray_project_64 :: "int list \<Rightarrow> int list \<Rightarrow> int \<Rightarrow> int \<Rightarrow> int list" where
  "awkward_unionarray_project_64 fromtags fromindex len which =
     project_loop (take (nat len) fromtags) fromindex which"

text \<open>\<^verbatim>\<open>UnionArrayOf<T, I>::regular_index\<close>.\<close>

definition UnionArrayOf_regular_index :: "int list \<Rightarrow> int list" where
  "UnionArrayOf_regular_index tags =
     awkward_unionarray_regular_index tags (int (length tags))"

text \<open>\<^verbatim>\<open>UnionArrayOf<T, I>::project\<close>; the message of the first exception is the source's
  without the two numbers it prints.\<close>

definition UnionArrayOf_project ::
  "ext \<Rightarrow> union_class \<Rightarrow> IdentitiesPtr \<Rightarrow> Parameters \<Rightarrow> int list \<Rightarrow> int list \<Rightarrow> content list
     \<Rightarrow> int \<Rightarrow> error + content" where
  "UnionArrayOf_project X k ids ps self_tags self_index self_contents index =
     (if \<not> (0 \<le> index \<and> index < int (length self_contents))
      then Inl (invalid_argument ''index out of range for contents'')
      else if length self_index < length self_tags
      then Inl (failure ''len(index) < len(tags)'')
      else carry X (self_contents ! nat index)
             (awkward_unionarray_project_64 self_tags self_index (int (length self_tags)) index))"

text \<open>
  \<^verbatim>\<open>UnionArrayOf<T, I>::getitem_next(head, tail, advanced)\<close>. \<open>G\<close> is the virtual
  \<^verbatim>\<open>getitem_next\<close> the loop calls on each projection, and \<open>x_Content_getitem_next\<close> the
  overloads of the base class for the other slice items.
\<close>

fun addresses_elements :: "SliceItem \<Rightarrow> bool" where
  "addresses_elements (SliceAt i) = True"
| "addresses_elements (SliceRange start stop step) = True"
| "addresses_elements (SliceArray64 ix shape) = True"
| "addresses_elements (SliceJagged64 offsets c) = True"
| "addresses_elements h = False"

definition UnionArrayOf_getitem_next ::
  "ext \<Rightarrow> (content \<Rightarrow> SliceItemPtr \<Rightarrow> Slice \<Rightarrow> int list \<Rightarrow> error + content)
     \<Rightarrow> union_class \<Rightarrow> IdentitiesPtr \<Rightarrow> Parameters \<Rightarrow> int list \<Rightarrow> int list \<Rightarrow> content list
     \<Rightarrow> SliceItemPtr \<Rightarrow> Slice \<Rightarrow> int list \<Rightarrow> error + content" where
  "UnionArrayOf_getitem_next X G k ids ps self_tags self_index self_contents head tail advanced =
     (case head of
        None \<Rightarrow> UnionArrayOf_ctor k ids ps self_tags self_index self_contents
      | Some h \<Rightarrow>
          if addresses_elements h
          then
            (case foldM
                    (\<lambda>outcontents i.
                       case UnionArrayOf_project X k ids ps self_tags self_index self_contents
                              (int i) of
                         Inl e \<Rightarrow> Inl e
                       | Inr projection \<Rightarrow>
                           (case G projection head tail advanced of
                              Inl e \<Rightarrow> Inl e
                            | Inr c \<Rightarrow> Inr (outcontents @ [c])))
                    [] [0..<length self_contents] of
               Inl e \<Rightarrow> Inl e
             | Inr outcontents \<Rightarrow>
                 (let outindex = UnionArrayOf_regular_index self_tags
                  in case UnionArrayOf_ctor k ids ps self_tags outindex outcontents of
                       Inl e \<Rightarrow> Inl e
                     | Inr out \<Rightarrow>
                         UnionArrayOf_simplify_uniontype X False k ids ps self_tags outindex
                           outcontents))
          else
            x_Content_getitem_next X
              (UnionArrayOf k ids ps self_tags self_index self_contents) h tail advanced)"

section \<open>Reading a row\<close>

lemma nth_size [termination_simp]:
  "i < length cs \<Longrightarrow> size (cs ! i) < Suc (size_list size cs)"
proof -
  assume "i < length cs"
  then have "cs ! i \<in> set cs" by simp
  then have "size (cs ! i) \<le> size_list size cs"
    by (rule size_list_estimation') simp
  then show ?thesis by simp
qed

text \<open>
  \<^verbatim>\<open>getitem_at_nowrap\<close> of the three classes. Modelled from the spec: the row of an
  \<open>Indexed\<close> or \<open>IndexedOption\<close> node (section 3.2: "logical i = child[index[i]]", and
  "index[i] < 0 denotes missing" in an \<open>IndexedOption\<close>).
\<close>

fun getitem_at_nowrap :: "ext \<Rightarrow> content \<Rightarrow> int \<Rightarrow> error + item" where
  "getitem_at_nowrap X (UnionArrayOf k ids ps tags index cs) at =
     (let tag = tags ! nat at; ix = index ! nat at
      in if \<not> (0 \<le> tag \<and> nat tag < length cs)
         then Inl (failure ''not 0 <= tag[i] < numcontents'')
         else if \<not> (0 \<le> ix \<and> ix < length_of X (cs ! nat tag))
         then Inl (failure ''index[i] > len(content(tag))'')
         else getitem_at_nowrap X (cs ! nat tag) ix)"
| "getitem_at_nowrap X (RecordArray ids ps cs rl n) at = Inr (Record (RecordArray ids ps cs rl n) at)"
| "getitem_at_nowrap X (UnmaskedArray ids ps c) at = getitem_at_nowrap X c at"
| "getitem_at_nowrap X (IndexedArrayOf k ids ps ix c) at =
     (if (k = IndexedOptionArray32 \<or> k = IndexedOptionArray64) \<and> ix ! nat at < 0
      then Inr NoneItem
      else getitem_at_nowrap X c (ix ! nat at))"
| "getitem_at_nowrap X c at = x_getitem_at_nowrap X c at"

section \<open>Flattening\<close>

text \<open>\<^verbatim>\<open>getitem_range\<close> of the three classes: the bounds are regularized against the length
  and tested against the identities, then \<^verbatim>\<open>getitem_range_nowrap\<close> cuts.\<close>

definition getitem_range :: "ext \<Rightarrow> content \<Rightarrow> int \<Rightarrow> int \<Rightarrow> error + content" where
  "getitem_range X self start stop =
     (if is_RecordArray self \<or> is_UnionArray self \<or> is_UnmaskedArray self
      then
        (case x_regularize_rangeslice X start stop True (start \<noteq> x_Slice_none X)
                (stop \<noteq> x_Slice_none X) (length_of X self) of
           (regular_start, regular_stop) \<Rightarrow>
             (case identities self of
                None \<Rightarrow> getitem_range_nowrap X self regular_start regular_stop
              | Some rows \<Rightarrow>
                  if regular_stop > int (length rows) then Inl (failure ''index out of range'')
                  else getitem_range_nowrap X self regular_start regular_stop))
      else x_getitem_range X self start stop)"

text \<open>
  \<^verbatim>\<open>offsets_and_flattened\<close> of the three classes. \<open>F\<close> is the virtual
  \<^verbatim>\<open>offsets_and_flattened\<close> each of them calls on its children.
\<close>

definition RecordArray_offsets_and_flattened ::
  "ext \<Rightarrow> (content \<Rightarrow> int \<Rightarrow> int \<Rightarrow> error + (int list \<times> content)) \<Rightarrow> IdentitiesPtr \<Rightarrow> Parameters
     \<Rightarrow> content list \<Rightarrow> RecordLookupPtr \<Rightarrow> int \<Rightarrow> int \<Rightarrow> int \<Rightarrow> error + (int list \<times> content)" where
  "RecordArray_offsets_and_flattened X F ids ps cs rl n axis depth =
     (case x_axis_wrap_if_negative X (RecordArray ids ps cs rl n) axis of
        Inl e \<Rightarrow> Inl e
      | Inr toaxis \<Rightarrow>
          if toaxis = depth then Inl (invalid_argument ''axis=0 not allowed for flatten'')
          else if toaxis = depth + 1
          then Inl (invalid_argument
                      ''arrays of records cannot be flattened (but their contents can be; try a different 'axis')'')
          else
            (case mapM
                    (\<lambda>c.
                       case getitem_range X c 0 n of
                         Inl e \<Rightarrow> Inl e
                       | Inr trimmed \<Rightarrow>
                           (case F trimmed axis depth of
                              Inl e \<Rightarrow> Inl e
                            | Inr (offsets, flattened) \<Rightarrow>
                                if length offsets \<noteq> 0
                                then Inl (runtime_error
                                            ''RecordArray content with axis > depth + 1 returned a non-empty offsets from offsets_and_flattened'')
                                else Inr flattened))
                    cs of
               Inl e \<Rightarrow> Inl e
             | Inr contents \<Rightarrow>
                 (case RecordArray_ctor4 X None [] contents rl of
                    Inl e \<Rightarrow> Inl e
                  | Inr r \<Rightarrow> Inr ([], r))))"

definition UnionArrayOf_offsets_and_flattened ::
  "ext \<Rightarrow> (content \<Rightarrow> int \<Rightarrow> int \<Rightarrow> error + (int list \<times> content)) \<Rightarrow> union_class \<Rightarrow> IdentitiesPtr
     \<Rightarrow> Parameters \<Rightarrow> int list \<Rightarrow> int list \<Rightarrow> content list \<Rightarrow> int \<Rightarrow> int
     \<Rightarrow> error + (int list \<times> content)" where
  "UnionArrayOf_offsets_and_flattened X F k ids ps self_tags self_index self_contents axis depth =
     (case x_axis_wrap_if_negative X
             (UnionArrayOf k ids ps self_tags self_index self_contents) axis of
        Inl e \<Rightarrow> Inl e
      | Inr toaxis \<Rightarrow>
          if toaxis = depth then Inl (invalid_argument ''axis=0 not allowed for flatten'')
          else
            (case foldM
                    (\<lambda>(has_offsets, offsetsraws, contents) c.
                       case F c axis depth of
                         Inl e \<Rightarrow> Inl e
                       | Inr (offsets, flattened) \<Rightarrow>
                           Inr (length offsets \<noteq> 0, offsetsraws @ [offsets],
                                contents @ [flattened]))
                    (False, [], []) self_contents of
               Inl e \<Rightarrow> Inl e
             | Inr (has_offsets, offsetsraws, contents) \<Rightarrow>
                 if has_offsets
                 then
                   (case x_unionarray_flatten_length X self_tags self_index offsetsraws of
                      Inl e \<Rightarrow> Inl e
                    | Inr total_length \<Rightarrow>
                        (case x_unionarray_flatten_combine X self_tags self_index offsetsraws of
                           Inl e \<Rightarrow> Inl e
                         | Inr (totags, toindex, tooffsets) \<Rightarrow>
                             (case UnionArrayOf_ctor UnionArray8_64 None [] totags toindex
                                     contents of
                                Inl e \<Rightarrow> Inl e
                              | Inr u \<Rightarrow> Inr (tooffsets, u))))
                 else
                   (case UnionArrayOf_ctor k None [] self_tags self_index contents of
                      Inl e \<Rightarrow> Inl e
                    | Inr u \<Rightarrow> Inr ([], u))))"

definition UnmaskedArray_offsets_and_flattened ::
  "ext \<Rightarrow> (content \<Rightarrow> int \<Rightarrow> int \<Rightarrow> error + (int list \<times> content)) \<Rightarrow> IdentitiesPtr \<Rightarrow> Parameters
     \<Rightarrow> content \<Rightarrow> int \<Rightarrow> int \<Rightarrow> error + (int list \<times> content)" where
  "UnmaskedArray_offsets_and_flattened X F ids ps cont axis depth =
     (case x_axis_wrap_if_negative X (UnmaskedArray ids ps cont) axis of
        Inl e \<Rightarrow> Inl e
      | Inr toaxis \<Rightarrow>
          if toaxis = depth then Inl (invalid_argument ''axis=0 not allowed for flatten'')
          else
            (case F cont axis depth of
               Inl e \<Rightarrow> Inl e
             | Inr (offsets, flattened) \<Rightarrow>
                 if length offsets = 0 then Inr (offsets, UnmaskedArray None [] flattened)
                 else Inr (offsets, flattened)))"

section \<open>Option-type simplification of an UnmaskedArray\<close>

text \<open>\<^verbatim>\<open>UnmaskedArray::simplify_optiontype\<close>; \<^verbatim>\<open>shallow_copy()\<close> builds the node again
  from the same members.\<close>

definition UnmaskedArray_simplify_optiontype ::
  "IdentitiesPtr \<Rightarrow> Parameters \<Rightarrow> content \<Rightarrow> content" where
  "UnmaskedArray_simplify_optiontype ids ps cont =
     (case indexed_or_option_content cont of
        Some c \<Rightarrow> cont
      | None \<Rightarrow> UnmaskedArray ids ps cont)"

text \<open>The node kinds of the specification (section 3.2), for comparison with the casts.\<close>

fun is_Indexed_kind :: "content \<Rightarrow> bool" where
  "is_Indexed_kind (IndexedArrayOf k ids ps ix c) =
     (k = IndexedArray32 \<or> k = IndexedArrayU32 \<or> k = IndexedArray64)"
| "is_Indexed_kind c = False"

fun is_IndexedOption_kind :: "content \<Rightarrow> bool" where
  "is_IndexedOption_kind (IndexedArrayOf k ids ps ix c) =
     (k = IndexedOptionArray32 \<or> k = IndexedOptionArray64)"
| "is_IndexedOption_kind c = False"

fun is_ByteMasked_kind :: "content \<Rightarrow> bool" where
  "is_ByteMasked_kind (ByteMaskedArray ids ps m c vw) = True"
| "is_ByteMasked_kind c = False"

fun is_BitMasked_kind :: "content \<Rightarrow> bool" where
  "is_BitMasked_kind (BitMaskedArray ids ps m c vw lsb n) = True"
| "is_BitMasked_kind c = False"

section \<open>An instance of the parameter\<close>

text \<open>
  The concrete evaluations below run with \<open>ext0\<close>. Modelled from the spec: a class outside
  the files merges by steps 1 and 2 of section 4.6 (a union of the two nodes when the
  parameters differ, \<open>self\<close> when \<open>other\<close> is \<open>Empty\<close>), its \<^verbatim>\<open>reverse_merge\<close> emits the
  union whose arm 0 is \<open>other\<close>, an \<open>Indexed\<close> node cuts and gathers its index, an
  \<^verbatim>\<open>OtherArray\<close> has the length of its first buffer and cuts each of its buffers, and
  a negative axis is refused. What the spec leaves open throws \<^verbatim>\<open>runtime_error\<close>.
\<close>

definition ext_base :: ext where
  "ext_base =
     \<lparr> x_length = (\<lambda>c. case c of
                          OtherArray cn ids ps bufs cs \<Rightarrow>
                            (case bufs of [] \<Rightarrow> 0 | b # bs \<Rightarrow> int (length b))
                        | _ \<Rightarrow> 0),
       x_getitem_at_nowrap = (\<lambda>c at. Inl (runtime_error ''not modelled'')),
       x_getitem_range_nowrap =
         (\<lambda>c start stop.
            case c of
              EmptyArray ids ps \<Rightarrow> Inr c
            | IndexedArrayOf k ids ps ix ch \<Rightarrow>
                Inr (IndexedArrayOf k (Identities_getitem_range_nowrap ids start stop) ps
                       (Index_getitem_range_nowrap ix start stop) ch)
            | OtherArray cn ids ps bufs cs \<Rightarrow>
                Inr (OtherArray cn (Identities_getitem_range_nowrap ids start stop) ps
                       (map (\<lambda>b. Index_getitem_range_nowrap b start stop) bufs) cs)
            | _ \<Rightarrow> Inl (runtime_error ''not modelled'')),
       x_getitem_range = (\<lambda>c start stop. Inl (runtime_error ''not modelled'')),
       x_carry =
         (\<lambda>c carry.
            case c of
              IndexedArrayOf k ids ps ix ch \<Rightarrow>
                (case awkward_index_carry_64 ix carry (int (length ix)) of
                   Inl e \<Rightarrow> Inl e
                 | Inr ix' \<Rightarrow> Inr (IndexedArrayOf k None ps ix' ch))
            | _ \<Rightarrow> Inl (runtime_error ''not modelled'')),
       x_mergeable = (\<lambda>c other mergebool. False),
       x_merge = (\<lambda>c other. Inl (runtime_error ''not modelled'')),
       x_reverse_merge = (\<lambda>c other. Inl (runtime_error ''not modelled'')),
       x_axis_wrap_if_negative =
         (\<lambda>c axis. if axis < 0 then Inl (runtime_error ''negative axis'') else Inr axis),
       x_regularize_rangeslice =
         (\<lambda>start stop posstep hasstart hasstop len.
            (let start1 = (if \<not> hasstart then 0 else if start < 0 then start + len else start);
                 start2 = max 0 (min len start1);
                 stop1 = (if \<not> hasstop then len else if stop < 0 then stop + len else stop);
                 stop2 = max 0 (min len stop1)
             in (start2, max start2 stop2))),
       x_Slice_none = - 9223372036854775808,
       x_Content_getitem_next = (\<lambda>c h tail advanced. Inl (runtime_error ''not modelled'')),
       x_unionarray_flatten_length = (\<lambda>tags index offsets. Inl (runtime_error ''not modelled'')),
       x_unionarray_flatten_combine = (\<lambda>tags index offsets. Inl (runtime_error ''not modelled''))
     \<rparr>"

definition ext0 :: ext where
  "ext0 =
     ext_base
       \<lparr> x_merge :=
           (\<lambda>c other.
              if \<not> parameters_equal (parameters c) (parameters other)
              then merge_as_union ext_base c other
              else if is_EmptyArray other then Inr c
              else Inl (runtime_error ''not modelled'')),
         x_reverse_merge := (\<lambda>c other. merge_as_union ext_base other c) \<rparr>"

section \<open>Notions the claims are stated with\<close>

text \<open>A record of no field and no row whose parameter \<open>label\<close> is a word of \<open>i\<close> letters: two
  of them with different \<open>i\<close> are not mergeable, so a union over them keeps each as an arm.\<close>

definition labelled_record :: "nat \<Rightarrow> content" where
  "labelled_record i = RecordArray None [(''label'', replicate i (CHR ''a''))] [] None 0"

text \<open>The arms \<open>other\<close> brings into a union: its contents when it is a union, itself otherwise.\<close>

definition arms_of :: "content \<Rightarrow> content list" where
  "arms_of other = (case other of UnionArrayOf k ids ps tags index cs \<Rightarrow> cs | c \<Rightarrow> [c])"

text \<open>Two nodes of one length with the same item at each position.\<close>

definition same_rows :: "ext \<Rightarrow> content \<Rightarrow> content \<Rightarrow> bool" where
  "same_rows X a b =
     (length_of X a = length_of X b
      \<and> list_all (\<lambda>i. getitem_at_nowrap X a (int i) = getitem_at_nowrap X b (int i))
          [0..<nat (length_of X b)])"

text \<open>A node of a class that the three files do not define.\<close>

definition outside :: "content \<Rightarrow> bool" where
  "outside c = (\<not> is_RecordArray c \<and> \<not> is_UnionArray c \<and> \<not> is_UnmaskedArray c)"

text \<open>What the constructors of \<^verbatim>\<open>RecordArray\<close> and \<^verbatim>\<open>UnionArrayOf\<close> check of their
  arguments.\<close>

fun ctor_invariant :: "content \<Rightarrow> bool" where
  "ctor_invariant (RecordArray ids ps cs rl n) =
     (case rl of None \<Rightarrow> True | Some keys \<Rightarrow> length keys = length cs)"
| "ctor_invariant (UnionArrayOf k ids ps tags index cs) = (cs \<noteq> [] \<and> length tags \<le> length index)"
| "ctor_invariant c = True"

text \<open>The index values of the rows whose tag is \<open>which\<close>, in the order of the rows.\<close>

definition project_rows :: "int list \<Rightarrow> int list \<Rightarrow> int \<Rightarrow> int list" where
  "project_rows tags index which = [index ! j. j \<leftarrow> [0..<length tags], tags ! j = which]"

text \<open>
  \<^verbatim>\<open>getitem_next\<close> of a union as the specification words it (section 4.5): each arm is
  projected and sliced, the results are put under the tags of the node with the regular index
  of those tags, and the union is simplified without merging booleans. It is compared with
  \<open>UnionArrayOf_getitem_next\<close>, which follows the source.
\<close>

definition getitem_next_by_projection ::
  "ext \<Rightarrow> (content \<Rightarrow> SliceItemPtr \<Rightarrow> Slice \<Rightarrow> int list \<Rightarrow> error + content)
     \<Rightarrow> union_class \<Rightarrow> IdentitiesPtr \<Rightarrow> Parameters \<Rightarrow> int list \<Rightarrow> int list \<Rightarrow> content list
     \<Rightarrow> SliceItemPtr \<Rightarrow> Slice \<Rightarrow> int list \<Rightarrow> error + content" where
  "getitem_next_by_projection X G k ids ps tags index contents head tail advanced =
     (case mapM (\<lambda>i. case carry X (contents ! i) (project_rows tags index (int i)) of
                        Inl e \<Rightarrow> Inl e
                      | Inr projection \<Rightarrow> G projection head tail advanced)
             [0..<length contents] of
        Inl e \<Rightarrow> Inl e
      | Inr arms \<Rightarrow>
          (case UnionArrayOf_ctor k ids ps tags (UnionArrayOf_regular_index tags) arms of
             Inl e \<Rightarrow> Inl e
           | Inr u \<Rightarrow>
               UnionArrayOf_simplify_uniontype X False k ids ps tags
                 (UnionArrayOf_regular_index tags) arms))"

text \<open>Instances of the two open calls for the concrete evaluations: a \<^verbatim>\<open>getitem_next\<close> of
  the projections that returns them as they are, and an \<^verbatim>\<open>offsets_and_flattened\<close> of the
  fields that returns offsets for a union and none for another node.\<close>

definition G0 :: "content \<Rightarrow> SliceItemPtr \<Rightarrow> Slice \<Rightarrow> int list \<Rightarrow> error + content" where
  "G0 c head tail advanced = Inr c"

definition F0 :: "content \<Rightarrow> int \<Rightarrow> int \<Rightarrow> error + (int list \<times> content)" where
  "F0 c axis depth = (if is_UnionArray c then Inr ([0, 1, 3], c) else Inr ([], c))"

text \<open>A union of two rows over one arm of lists.\<close>

definition lists_union :: content where
  "lists_union =
     UnionArrayOf UnionArray8_64 None [] [0, 0] [0, 1]
       [OtherArray ''ListOffsetArray64'' None [] [[0, 1, 3]]
          [OtherArray ''NumpyArray'' None [] [[5, 6, 7]] []]]"

text \<open>
  The nodes the merge law is stated for. A record has a length that is not negative, as many
  keys as fields when it has keys, and fields that are themselves such nodes and no shorter than
  the record; a union has an index no shorter than its tags, as its constructor requires; a
  node of a class outside the three files has a length that is not negative.
\<close>

fun valid :: "ext \<Rightarrow> content \<Rightarrow> bool" where
  "valid X (RecordArray ids ps cs rl n) =
     (0 \<le> n
      \<and> (case rl of None \<Rightarrow> True | Some keys \<Rightarrow> length keys = length cs)
      \<and> list_all (\<lambda>c. valid X c \<and> n \<le> length_of X c) cs)"
| "valid X (UnmaskedArray ids ps c) = valid X c"
| "valid X (UnionArrayOf k ids ps tags index cs) = (length tags \<le> length index)"
| "valid X c = (0 \<le> length_of X c)"

text \<open>A function \<open>M\<close> on two nodes keeps the merge law: what it returns has the length of the
  first and of the second together.\<close>

definition merge_law :: "ext \<Rightarrow> (content \<Rightarrow> content \<Rightarrow> error + content) \<Rightarrow> bool" where
  "merge_law X M =
     (\<forall>a b r. valid X a \<longrightarrow> valid X b \<longrightarrow> M a b = Inr r \<longrightarrow>
        length_of X r = length_of X a + length_of X b)"

text \<open>
  What the classes outside the three files are taken to do: their \<^verbatim>\<open>merge\<close> and their
  \<^verbatim>\<open>reverse_merge\<close> return a node with the two lengths together, and their
  \<^verbatim>\<open>getitem_range_nowrap\<close> from 0 to \<open>stop\<close>, within the node, returns a node of length
  \<open>stop\<close>.
\<close>

definition outside_laws :: "ext \<Rightarrow> bool" where
  "outside_laws X =
     ((\<forall>c other r. outside c \<longrightarrow> valid X c \<longrightarrow> valid X other \<longrightarrow> x_merge X c other = Inr r \<longrightarrow>
         length_of X r = length_of X c + length_of X other)
      \<and> (\<forall>c other r. outside c \<longrightarrow> valid X c \<longrightarrow> valid X other \<longrightarrow>
            x_reverse_merge X c other = Inr r \<longrightarrow>
            length_of X r = length_of X other + length_of X c)
      \<and> (\<forall>c stop r. outside c \<longrightarrow> valid X c \<longrightarrow> 0 \<le> stop \<longrightarrow> stop \<le> length_of X c \<longrightarrow>
            x_getitem_range_nowrap X c 0 stop = Inr r \<longrightarrow>
            valid X r \<and> length_of X r = stop))"

section \<open>Lemmas\<close>

lemma minlength_foldl_nonneg:
  assumes "0 \<le> out" and "\<forall>c\<in>set cs. 0 \<le> length_of X c"
  shows "foldl (minlength_step X) out cs = fold min (map (length_of X) cs) out"
  using assms
proof (induction cs arbitrary: out)
  case Nil
  then show ?case by simp
next
  case (Cons c cs)
  have step: "minlength_step X out c = min (length_of X c) out"
    using Cons.prems by (auto simp: minlength_step_def Let_def min_def)
  have "0 \<le> min (length_of X c) out" using Cons.prems by simp
  then show ?case using Cons.IH Cons.prems by (simp add: step)
qed

lemma minlength_nonempty:
  assumes "cs \<noteq> []" and "\<forall>c\<in>set cs. 0 \<le> length_of X c"
  shows "minlength X cs = Min (set (map (length_of X) cs))"
proof -
  obtain c cs' where cs: "cs = c # cs'" using assms(1) by (cases cs) auto
  have first: "minlength_step X (- 1) c = length_of X c"
    by (simp add: minlength_step_def)
  have "minlength X cs = foldl (minlength_step X) (length_of X c) cs'"
    by (simp add: minlength_def cs first)
  also have "\<dots> = fold min (map (length_of X) cs') (length_of X c)"
    using assms(2) by (intro minlength_foldl_nonneg) (auto simp: cs)
  also have "\<dots> = Min (set (length_of X c # map (length_of X) cs'))"
    by (rule Min.set_eq_fold [symmetric])
  finally show ?thesis by (simp add: cs)
qed


lemma int8_id: "- 128 \<le> x \<Longrightarrow> x < 128 \<Longrightarrow> int8 x = x"
  by (simp add: int8_def)

lemma foldM_append:
  "foldM f s (xs @ ys) = (case foldM f s xs of Inl e \<Rightarrow> Inl e | Inr s' \<Rightarrow> foldM f s' ys)"
  by (induction xs arbitrary: s) (simp_all split: sum.splits)

lemma foldM_invariant:
  assumes "foldM f s xs = Inr s'" and "P s"
    and "\<And>a x b. P a \<Longrightarrow> x \<in> set xs \<Longrightarrow> f a x = Inr b \<Longrightarrow> P b"
  shows "P s'"
  using assms
proof (induction xs arbitrary: s)
  case Nil
  then show ?case by simp
next
  case (Cons x xs)
  from Cons.prems(1) obtain s1 where s1: "f s x = Inr s1" and rest: "foldM f s1 xs = Inr s'"
    by (auto split: sum.splits)
  have p1: "P s1" by (rule Cons.prems(3) [OF Cons.prems(2) _ s1]) simp
  show ?case
  proof (rule Cons.IH [OF rest p1])
    fix a y b
    assume "P a" and "y \<in> set xs" and "f a y = Inr b"
    then show "P b" by (intro Cons.prems(3) [of a y b]) simp_all
  qed
qed

definition buffers_of_length :: "nat \<Rightarrow> simplify_state \<Rightarrow> bool" where
  "buffers_of_length n st = (case st of (tags, index, contents) \<Rightarrow> length tags = n \<and> length index = n)"

lemma simplify_place_buffers:
  assumes "simplify_place X mergebool fill c st = Inr st'"
    and "buffers_of_length n st"
    and "\<And>a b t i. length (fst (fill a b t i)) = length t \<and> length (snd (fill a b t i)) = length i"
  shows "buffers_of_length n st'"
proof -
  obtain tags index contents where st: "st = (tags, index, contents)" by (cases st) auto
  have l: "length tags = n" "length index = n" using assms(2) st by (simp_all add: buffers_of_length_def)
  show ?thesis
  proof (cases "find (\<lambda>k. mergeable X (contents ! k) c mergebool) [0..<length contents]")
    case None
    then have "st' = (fst (fill (int (length contents)) 0 tags index),
                      snd (fill (int (length contents)) 0 tags index), contents @ [c])"
      using assms(1) st by (simp add: simplify_place_def split: prod.splits)
    then show ?thesis using assms(3) l by (simp add: buffers_of_length_def)
  next
    case (Some k)
    then obtain m where "st' = (fst (fill (int k) (length_of X (contents ! k)) tags index),
                      snd (fill (int k) (length_of X (contents ! k)) tags index), contents[k := m])"
      using assms(1) st by (auto simp: simplify_place_def split: prod.splits sum.splits)
    then show ?thesis using assms(3) l by (simp add: buffers_of_length_def)
  qed
qed

lemma simplify_one_lengths:
  "length (fst (awkward_unionarray_simplify_one_to8_64 t i ft fi tw fw len base)) = length t
   \<and> length (snd (awkward_unionarray_simplify_one_to8_64 t i ft fi tw fw len base)) = length i"
  by (simp add: awkward_unionarray_simplify_one_to8_64_def Let_def)

lemma simplify_lengths:
  "length (fst (awkward_unionarray_simplify_to8_64 t i ot oi it ii tw iw ow len base)) = length t
   \<and> length (snd (awkward_unionarray_simplify_to8_64 t i ot oi it ii tw iw ow len base)) = length i"
  by (simp add: awkward_unionarray_simplify_to8_64_def Let_def)

lemma simplify_arm_other:
  assumes "\<not> is_UnionArray (self_contents ! i)"
  shows "simplify_arm X mergebool self_tags self_index self_contents st i =
     simplify_place X mergebool
       (\<lambda>towhich base tags index.
          awkward_unionarray_simplify_one_to8_64 tags index self_tags self_index
            towhich (int i) (int (length self_tags)) base)
       (self_contents ! i) st"
proof -
  obtain c where c: "self_contents ! i = c" by simp
  have "\<not> is_UnionArray c" using assms c by simp
  then show ?thesis
    unfolding simplify_arm_def Let_def c
    by (cases c) simp_all
qed

lemma simplify_arm_buffers:
  assumes "simplify_arm X mergebool self_tags self_index self_contents st i = Inr st'"
    and "buffers_of_length n st"
  shows "buffers_of_length n st'"
proof (cases "is_UnionArray (self_contents ! i)")
  case True
  obtain c where c: "self_contents ! i = c" by simp
  have "is_UnionArray c" using True c by simp
  then obtain ik iids ips innertags innerindex innercontents
    where "c = UnionArrayOf ik iids ips innertags innerindex innercontents"
    by (cases c) simp_all
  then have u: "self_contents ! i = UnionArrayOf ik iids ips innertags innerindex innercontents"
    using c by simp
  let ?f = "\<lambda>st' j. simplify_place X mergebool
              (\<lambda>towhich base tags index.
                 awkward_unionarray_simplify_to8_64 tags index self_tags self_index
                   innertags innerindex towhich (int j) (int i) (int (length self_tags)) base)
              (innercontents ! j) st'"
  have run: "foldM ?f st [0..<length innercontents] = Inr st'"
    using assms(1) u by (simp add: simplify_arm_def)
  show ?thesis
  proof (rule foldM_invariant [where P = "buffers_of_length n", OF run assms(2)])
    fix a x b
    assume a: "buffers_of_length n a" and f: "?f a x = Inr b"
    show "buffers_of_length n b"
      by (rule simplify_place_buffers [OF f a]) (rule simplify_lengths)
  qed
next
  case False
  show ?thesis
    by (rule simplify_place_buffers [OF assms(1) [unfolded simplify_arm_other [OF False]] assms(2)])
       (rule simplify_one_lengths)
qed

lemma simplify_canonical_buffers:
  assumes "simplify_canonical X mergebool self_tags self_index self_contents = Inr (tags, index, contents)"
  shows "length tags = length self_tags \<and> length index = length self_tags"
proof -
  have "buffers_of_length (length self_tags) (tags, index, contents)"
  proof (rule foldM_invariant [where P = "buffers_of_length (length self_tags)",
           OF assms [unfolded simplify_canonical_def Let_def]])
    show "buffers_of_length (length self_tags)
            (new_Index (int (length self_tags)), new_Index (int (length self_tags)), [])"
      by (simp add: buffers_of_length_def new_Index_def)
  next
    fix a x b
    assume "buffers_of_length (length self_tags) a"
      and "simplify_arm X mergebool self_tags self_index self_contents a x = Inr b"
    then show "buffers_of_length (length self_tags) b"
      by (rule simplify_arm_buffers [rotated 1])
  qed
  then show ?thesis by (simp add: buffers_of_length_def)
qed

lemma carry_class:
  assumes "carry X c ix = Inr r"
  shows "(is_UnionArray c \<longrightarrow> is_UnionArray r)
       \<and> (is_RecordArray c \<or> is_UnmaskedArray c \<longrightarrow> \<not> is_UnionArray r)"
proof (cases c)
  case (RecordArray ids ps cs rl n)
  then show ?thesis using assms
    by (auto simp: RecordArray_ctor_def split: sum.splits option.splits if_splits)
next
  case (UnmaskedArray ids ps c')
  then show ?thesis using assms by (auto split: sum.splits)
next
  case (UnionArrayOf k ids ps tags index cs)
  then show ?thesis using assms
    by (auto simp: UnionArrayOf_ctor_def split: sum.splits if_splits)
qed simp_all


lemma write_at_0: "write_at buf 0 vals = vals @ drop (length vals) buf"
  by (simp add: write_at_def)

lemma write_at_end:
  "nat offset = length xs \<Longrightarrow> length ys \<le> length vals \<Longrightarrow> write_at (xs @ ys) offset vals = xs @ vals"
  by (simp add: write_at_def)

lemma new_Index_add:
  "0 \<le> a \<Longrightarrow> 0 \<le> b \<Longrightarrow> new_Index (a + b) = replicate (nat a) 0 @ replicate (nat b) 0"
  by (simp add: new_Index_def nat_add_distrib replicate_add)

lemma fill_front_tags:
  assumes "0 \<le> a" "0 \<le> b" "- 128 \<le> base" "base < 128"
  shows "awkward_unionarray_filltags_to8_const (new_Index (a + b)) 0 a base
           = replicate (nat a) base @ replicate (nat b) 0"
  using assms
  by (simp add: awkward_unionarray_filltags_to8_const_def new_Index_add write_at_0 int8_id)

lemma fill_front_count:
  assumes "0 \<le> a" "0 \<le> b"
  shows "awkward_unionarray_fillindex_to64_count (new_Index (a + b)) 0 a
           = map int [0..<nat a] @ replicate (nat b) 0"
  using assms
  by (simp add: awkward_unionarray_fillindex_to64_count_def new_Index_add write_at_0)

lemma reverse_merge_value:
  assumes small: "length self_contents < 127"
    and len: "0 \<le> length_of X other"
    and tags: "list_all (\<lambda>t. 0 \<le> t \<and> t < int (length self_contents)) self_tags"
    and ix: "length self_tags \<le> length self_index"
  shows "UnionArrayOf_reverse_merge X k ids ps self_tags self_index self_contents other =
           Inr (UnionArrayOf UnionArray8_64 None []
                  (replicate (nat (length_of X other)) 0 @ map (\<lambda>t. t + 1) self_tags)
                  (map int [0..<nat (length_of X other)] @ take (length self_tags) self_index)
                  (other # self_contents))"
proof -
  let ?a = "length_of X other" and ?b = "int (length self_tags)"
  have t8: "map (\<lambda>t. int8 (t + 1)) self_tags = map (\<lambda>t. t + 1) self_tags"
    using tags small by (intro map_cong refl int8_id) (auto simp: list_all_iff)
  have tags2: "awkward_unionarray_filltags_to8_from8
                 (awkward_unionarray_filltags_to8_const (new_Index (?a + ?b)) 0 ?a 0)
                 ?a self_tags ?b 1
               = replicate (nat ?a) 0 @ map (\<lambda>t. t + 1) self_tags"
    using len
    by (simp add: fill_front_tags awkward_unionarray_filltags_to8_from8_def write_at_end t8)
  have index2: "awkward_unionarray_fillindex_to64_from
                  (awkward_unionarray_fillindex_to64_count (new_Index (?a + ?b)) 0 ?a)
                  ?a self_index ?b
                = map int [0..<nat ?a] @ take (length self_tags) self_index"
    using len ix
    by (simp add: fill_front_count awkward_unionarray_fillindex_to64_from_def write_at_end)
  show ?thesis
    using small ix
    by (simp add: UnionArrayOf_reverse_merge_def Let_def tags2 index2 kMaxInt8_def
                  UnionArrayOf_ctor_def)
qed


lemma labelled_record_not_mergeable:
  "i \<noteq> j \<Longrightarrow> \<not> mergeable X (labelled_record i) (labelled_record j) mergebool"
  by (simp add: labelled_record_def parameters_equal_def replicate_eq_replicate)

lemma simplify_one_empty:
  "awkward_unionarray_simplify_one_to8_64 [] [] ft fi tw fw len base = ([], [])"
  by (simp add: awkward_unionarray_simplify_one_to8_64_def)

lemma simplify_place_labelled:
  assumes "m < n"
  shows "simplify_place X mergebool
           (\<lambda>towhich base tags index.
              awkward_unionarray_simplify_one_to8_64 tags index [] [] towhich (int m) 0 base)
           (labelled_record m) ([], [], map labelled_record [0..<m])
         = Inr ([], [], map labelled_record [0..<Suc m])"
proof -
  have "find (\<lambda>k. mergeable X (map labelled_record [0..<m] ! k) (labelled_record m) mergebool)
          [0..<length (map labelled_record [0..<m])] = None"
    by (simp add: find_None_iff labelled_record_not_mergeable)
  then show ?thesis
    by (simp add: simplify_place_def simplify_one_empty)
qed

lemma simplify_canonical_labelled_prefix:
  "m \<le> n \<Longrightarrow>
   foldM (simplify_arm X mergebool [] [] (map labelled_record [0..<n])) ([], [], []) [0..<m]
     = Inr ([], [], map labelled_record [0..<m])"
proof (induction m)
  case 0
  then show ?case by simp
next
  case (Suc m)
  then have m: "m < n" by simp
  have nu: "\<not> is_UnionArray (map labelled_record [0..<n] ! m)"
    using m by (simp add: labelled_record_def)
  have arm: "simplify_arm X mergebool [] [] (map labelled_record [0..<n])
               ([], [], map labelled_record [0..<m]) m
             = Inr ([], [], map labelled_record [0..<Suc m])"
    using m simplify_place_labelled [OF m, of X mergebool]
    by (simp add: simplify_arm_other [OF nu])
  show ?case
    using Suc.IH m arm by (simp add: foldM_append)
qed

lemma simplify_canonical_labelled:
  "simplify_canonical X mergebool [] [] (map labelled_record [0..<n])
     = Inr ([], [], map labelled_record [0..<n])"
  using simplify_canonical_labelled_prefix [of n n X mergebool]
  by (simp add: simplify_canonical_def new_Index_def)

lemma merge_UnionArrayOf:
  "merge X (UnionArrayOf k ids ps tags index cs) other
     = UnionArrayOf_merge X k ids ps tags index cs other"
  by (simp add: merge_def)

lemma merge_RecordArray_differ:
  "\<not> parameters_equal ps (parameters other) \<Longrightarrow>
   merge X (RecordArray ids ps cs rl n) other = merge_as_union X (RecordArray ids ps cs rl n) other"
  by (cases "record_depth (RecordArray ids ps cs rl n)")
     (simp_all add: merge_def RecordArray_merge_def)

lemma merge_UnmaskedArray:
  "merge X (UnmaskedArray ids ps c) other = UnmaskedArray_merge X ids ps c other"
  by (simp add: merge_def)

lemma merge_outside:
  "outside c \<Longrightarrow> merge X c other = x_merge X c other"
  by (cases c) (simp_all add: merge_def outside_def)

lemma same_rows_refl: "same_rows X c c"
  by (simp add: same_rows_def list_all_iff)

lemma same_rows_trans: "same_rows X a b \<Longrightarrow> same_rows X b c \<Longrightarrow> same_rows X a c"
  by (simp add: same_rows_def list_all_iff)

lemma same_rows_merge_as_union:
  assumes "0 \<le> length_of X c"
  shows "same_rows X
           (UnionArrayOf UnionArray8_64 None []
              (replicate (nat (length_of X c)) 0 @ replicate (nat (length_of X (EmptyArray oids ops))) 1)
              (map int [0..<nat (length_of X c)] @ map int [0..<nat (length_of X (EmptyArray oids ops))])
              [c, EmptyArray oids ops]) c"
  using assms by (auto simp: same_rows_def list_all_iff nth_append Let_def)

lemma same_rows_toIndexedOptionArray64:
  assumes "0 \<le> length_of X c"
  shows "same_rows X (IndexedArrayOf IndexedOptionArray64 ids ps (map int [0..<nat (length_of X c)]) c)
           (UnmaskedArray ids' ps' c)"
  using assms by (auto simp: same_rows_def list_all_iff Let_def)

lemma RecordArray_ctor_invariant:
  "ctor_invariant (RecordArray ids ps cs rl n) \<Longrightarrow>
   RecordArray_ctor ids ps cs rl n = Inr (RecordArray ids ps cs rl n)"
  by (cases rl) (simp_all add: RecordArray_ctor_def)

lemma length_of_ext0: "length_of ext0 c = length_of ext_base c"
  by (induction c) (simp_all add: ext0_def)

lemma merge_as_union_ext0:
  "merge_as_union ext0 a b = merge_as_union ext_base a b"
  by (simp add: merge_as_union_def Let_def length_of_ext0)

lemma ext0_merge_Empty:
  assumes "outside c'" and "0 \<le> length_of ext0 c'"
  shows "\<exists>r. x_merge ext0 c' (EmptyArray oids ops) = Inr r \<and> same_rows ext0 r c'"
proof (cases "parameters_equal (parameters c') ops")
  case True
  then have "x_merge ext0 c' (EmptyArray oids ops) = Inr c'"
    by (simp add: ext0_def)
  then show ?thesis by (simp add: same_rows_refl)
next
  case False
  then have "x_merge ext0 c' (EmptyArray oids ops) = merge_as_union ext_base c' (EmptyArray oids ops)"
    by (simp add: ext0_def)
  then have "x_merge ext0 c' (EmptyArray oids ops) = merge_as_union ext0 c' (EmptyArray oids ops)"
    by (simp add: merge_as_union_ext0)
  then show ?thesis
    using same_rows_merge_as_union [OF assms(2), of oids ops]
    by (simp add: merge_as_union_def Let_def)
qed

lemma project_rows_Cons:
  "project_rows (t # tags) (x # index) which
     = (if t = which then [x] else []) @ project_rows tags index which"
proof -
  have "[0..<length (t # tags)] = 0 # map Suc [0..<length tags]"
    by (simp add: upt_conv_Cons map_Suc_upt del: upt_Suc)
  then show ?thesis
    by (simp add: project_rows_def comp_def del: upt_Suc cong: if_cong)
qed

lemma project_loop_rows:
  "length tags \<le> length index \<Longrightarrow> project_loop tags index which = project_rows tags index which"
proof (induction tags arbitrary: index)
  case Nil
  then show ?case by (simp add: project_rows_def)
next
  case (Cons t tags)
  then obtain x index' where i: "index = x # index'" by (cases index) auto
  then show ?case using Cons by (simp add: project_rows_Cons)
qed

lemma UnionArrayOf_project_rows:
  assumes "length tags \<le> length index" and "i < length contents"
  shows "UnionArrayOf_project X k ids ps tags index contents (int i)
           = carry X (contents ! i) (project_rows tags index (int i))"
  using assms
  by (simp add: UnionArrayOf_project_def awkward_unionarray_project_64_def project_loop_rows)

lemma foldM_push_back:
  "foldM (\<lambda>acc x. case f x of Inl e \<Rightarrow> Inl e | Inr y \<Rightarrow> Inr (acc @ [y])) acc xs
     = (case mapM f xs of Inl e \<Rightarrow> Inl e | Inr ys \<Rightarrow> Inr (acc @ ys))"
  by (induction xs arbitrary: acc) (simp_all split: sum.splits)

lemma mapM_first_error:
  assumes "i < length xs" and "\<forall>j<i. \<exists>y. f (xs ! j) = Inr y" and "f (xs ! i) = Inl e"
  shows "mapM f xs = Inl e"
  using assms
proof (induction xs arbitrary: i)
  case Nil
  then show ?case by simp
next
  case (Cons x xs)
  show ?case
  proof (cases i)
    case 0
    then show ?thesis using Cons.prems by simp
  next
    case (Suc i')
    obtain y where y: "f x = Inr y" using Cons.prems(2) Suc by fastforce
    have "mapM f xs = Inl e"
    proof (rule Cons.IH [of i'])
      show "i' < length xs" using Cons.prems(1) Suc by simp
      show "\<forall>j<i'. \<exists>y. f (xs ! j) = Inr y"
      proof (intro allI impI)
        fix j assume "j < i'"
        then have "Suc j < i" using Suc by simp
        then have "\<exists>y. f ((x # xs) ! Suc j) = Inr y" using Cons.prems(2) by blast
        then show "\<exists>y. f (xs ! j) = Inr y" by simp
      qed
      show "f (xs ! i') = Inl e" using Cons.prems(3) Suc by simp
    qed
    then show ?thesis using y by simp
  qed
qed

lemma valid_nonneg: "valid X c \<Longrightarrow> 0 \<le> length_of X c"
  by (induction c) simp_all

lemma mapM_Inr_list_all2:
  "mapM f xs = Inr ys \<Longrightarrow> list_all2 (\<lambda>x y. f x = Inr y) xs ys"
  by (induction xs arbitrary: ys) (auto split: sum.splits)

lemma range_nowrap_valid:
  assumes "outside_laws X"
  shows "valid X c \<Longrightarrow> 0 \<le> stop \<Longrightarrow> stop \<le> length_of X c \<Longrightarrow>
         getitem_range_nowrap X c 0 stop = Inr r \<Longrightarrow> valid X r \<and> length_of X r = stop"
proof (induction c arbitrary: r)
  case (RecordArray ids ps cs rl n)
  show ?case
  proof (cases "cs = []")
    case True
    then show ?thesis using RecordArray.prems
      by (auto simp: RecordArray_ctor_def split: option.splits if_splits)
  next
    case False
    then obtain cs' where m: "mapM (\<lambda>c. getitem_range_nowrap X c 0 stop) cs = Inr cs'"
      and r: "RecordArray_ctor ids ps cs' rl (stop - 0) = Inr r"
      using RecordArray.prems(4) by (auto split: sum.splits)
    have l2: "list_all2 (\<lambda>c c'. getitem_range_nowrap X c 0 stop = Inr c') cs cs'"
      by (rule mapM_Inr_list_all2 [OF m])
    have r': "r = RecordArray ids ps cs' rl stop"
      and lk: "case rl of None \<Rightarrow> True | Some keys \<Rightarrow> length keys = length cs'"
      using r by (auto simp: RecordArray_ctor_def split: option.splits if_splits)
    have "list_all (\<lambda>c. valid X c \<and> stop \<le> length_of X c) cs'"
      unfolding list_all_length
    proof (intro allI impI)
      fix i assume i: "i < length cs'"
      then have i': "i < length cs" using l2 by (simp add: list_all2_lengthD)
      have g: "getitem_range_nowrap X (cs ! i) 0 stop = Inr (cs' ! i)"
        using l2 i' by (simp add: list_all2_conv_all_nth)
      have v: "valid X (cs ! i)" "n \<le> length_of X (cs ! i)"
        using RecordArray.prems(1) i' by (simp_all add: list_all_length)
      have "stop \<le> length_of X (cs ! i)" using v(2) RecordArray.prems(3) by simp
      then have "valid X (cs' ! i) \<and> length_of X (cs' ! i) = stop"
        using RecordArray.IH [of "cs ! i" "cs' ! i"] i' v(1) RecordArray.prems(2) g by simp
      then show "valid X (cs' ! i) \<and> stop \<le> length_of X (cs' ! i)" by simp
    qed
    then show ?thesis using r' lk RecordArray.prems(2) by simp
  qed
next
  case (UnionArrayOf k ids ps tags index cs)
  then show ?case
    by (auto simp: UnionArrayOf_ctor_def Index_getitem_range_nowrap_def split: if_splits)
next
  case (UnmaskedArray ids ps c)
  then show ?case by (auto split: sum.splits)
next
  case (EmptyArray ids ps)
  then show ?case using assms
    unfolding outside_laws_def
    by (metis getitem_range_nowrap.simps(4) is_RecordArray.simps(2) is_UnionArray.simps(2)
          is_UnmaskedArray.simps(2) outside_def)
next
  case (IndexedArrayOf k ids ps ix c)
  have o: "outside (IndexedArrayOf k ids ps ix c)" by (simp add: outside_def)
  show ?case using assms IndexedArrayOf.prems o
    unfolding outside_laws_def by (metis getitem_range_nowrap.simps(5))
next
  case (ByteMaskedArray ids ps m c vw)
  have o: "outside (ByteMaskedArray ids ps m c vw)" by (simp add: outside_def)
  show ?case using assms ByteMaskedArray.prems o
    unfolding outside_laws_def by (metis getitem_range_nowrap.simps(6))
next
  case (BitMaskedArray ids ps m c vw lsb n)
  have o: "outside (BitMaskedArray ids ps m c vw lsb n)" by (simp add: outside_def)
  show ?case using assms BitMaskedArray.prems o
    unfolding outside_laws_def by (metis getitem_range_nowrap.simps(7))
next
  case (OtherArray cn ids ps bufs cs)
  have o: "outside (OtherArray cn ids ps bufs cs)" by (simp add: outside_def)
  show ?case using assms OtherArray.prems o
    unfolding outside_laws_def by (metis getitem_range_nowrap.simps(8))
qed

lemma length_write_at:
  "length (write_at buf offset vals)
     = min (nat offset) (length buf) + length vals + (length buf - (nat offset + length vals))"
  by (simp add: write_at_def)

lemma length_filltags_from8:
  "length (awkward_unionarray_filltags_to8_from8 buf offset fromtags len base)
     = min (nat offset) (length buf) + min (length fromtags) (nat len)
       + (length buf - (nat offset + min (length fromtags) (nat len)))"
  by (simp add: awkward_unionarray_filltags_to8_from8_def length_write_at)

lemma length_filltags_const:
  "length (awkward_unionarray_filltags_to8_const buf offset len base)
     = min (nat offset) (length buf) + nat len + (length buf - (nat offset + nat len))"
  by (simp add: awkward_unionarray_filltags_to8_const_def length_write_at)

lemma UnionArrayOf_reverse_merge_length:
  assumes "0 \<le> length_of X other"
    and "UnionArrayOf_reverse_merge X k ids ps self_tags self_index self_contents other = Inr r"
  shows "length_of X r = length_of X other + int (length self_tags)"
proof -
  let ?a = "length_of X other" and ?b = "int (length self_tags)"
  let ?tags2 = "awkward_unionarray_filltags_to8_from8
                 (awkward_unionarray_filltags_to8_const (new_Index (?a + ?b)) 0 ?a 0)
                 ?a self_tags ?b 1"
  have l: "length ?tags2 = nat ?a + length self_tags"
    using assms(1)
    by (simp add: length_filltags_from8 length_filltags_const new_Index_def nat_add_distrib)
  obtain index2 where "r = UnionArrayOf UnionArray8_64 None [] ?tags2 index2 (other # self_contents)"
    using assms(2)
    by (auto simp: UnionArrayOf_reverse_merge_def Let_def UnionArrayOf_ctor_def split: if_splits)
  then show ?thesis using l assms(1) by simp
qed

lemma UnionArrayOf_merge_length:
  assumes "0 \<le> length_of X other"
    and "UnionArrayOf_merge X k ids ps self_tags self_index self_contents other = Inr r"
  shows "length_of X r = int (length self_tags) + length_of X other"
proof (cases "parameters_equal ps (parameters other)")
  case False
  then show ?thesis using assms
    by (auto simp: UnionArrayOf_merge_def merge_as_union_def Let_def)
next
  case True
  show ?thesis
  proof (cases "is_EmptyArray other")
    case e: True
    then have "length_of X other = 0" by (cases other) simp_all
    then show ?thesis using assms True e
      by (auto simp: UnionArrayOf_merge_def UnionArrayOf_ctor_def split: if_splits)
  next
    case e: False
    let ?my = "int (length self_tags)" and ?their = "length_of X other"
    let ?tags1 = "awkward_unionarray_filltags_to8_from8 (new_Index (?my + ?their)) 0 self_tags ?my 0"
    have l1: "length ?tags1 = length self_tags + nat ?their"
      using assms(1) by (simp add: length_filltags_from8 new_Index_def nat_add_distrib)
    show ?thesis
    proof (cases "is_UnionArray other")
      case u: True
      then obtain ok oids ops ot oi ocs where o: "other = UnionArrayOf ok oids ops ot oi ocs"
        by (cases other) simp_all
      let ?tags2 = "awkward_unionarray_filltags_to8_from8 ?tags1 ?my ot ?their
                      (int (length self_contents))"
      have l2: "length ?tags2 = length self_tags + nat ?their"
        using o by (simp add: length_filltags_from8 new_Index_def nat_add_distrib)
      obtain index2 contents where "r = UnionArrayOf UnionArray8_64 None [] ?tags2 index2 contents"
        using assms(2) True e o
        by (auto simp: UnionArrayOf_merge_def Let_def UnionArrayOf_ctor_def split: if_splits)
      then show ?thesis using l2 assms(1) by simp
    next
      case u: False
      let ?tags2 = "awkward_unionarray_filltags_to8_const ?tags1 ?my ?their
                      (int (length self_contents))"
      have l2: "length ?tags2 = length self_tags + nat ?their"
        using assms(1)
        by (simp add: length_filltags_const length_filltags_from8 new_Index_def nat_add_distrib)
      have "UnionArrayOf_merge X k ids ps self_tags self_index self_contents other
              = (if length (self_contents @ [other]) > kMaxInt8
                 then Inl (runtime_error ''FIXME: handle UnionArray with more than 127 contents'')
                 else UnionArrayOf_ctor UnionArray8_64 None [] ?tags2
                        (awkward_unionarray_fillindex_to64_count
                           (awkward_unionarray_fillindex_to64_from (new_Index (?my + ?their)) 0
                              self_index ?my) ?my ?their)
                        (self_contents @ [other]))"
        using True e u unfolding UnionArrayOf_merge_def
        by (cases other) (simp_all add: Let_def)
      then obtain index2 contents where "r = UnionArrayOf UnionArray8_64 None [] ?tags2 index2 contents"
        using assms(2) by (auto simp: UnionArrayOf_ctor_def split: if_splits)
      then show ?thesis using l2 assms(1) by simp
    qed
  qed
qed

lemma minlength_const:
  assumes "contents \<noteq> []" and "\<forall>m\<in>set contents. length_of X m = L" and "0 \<le> L"
  shows "minlength X contents = L"
proof -
  have "set (map (length_of X) contents) = {L}"
    using assms(1,2) by (cases contents) auto
  moreover have "minlength X contents = Min (set (map (length_of X) contents))"
    using assms by (intro minlength_nonempty) auto
  ultimately show ?thesis by simp
qed

lemma RecordArray_ctor_Inr:
  "RecordArray_ctor ids ps cs rl n = Inr r \<Longrightarrow> r = RecordArray ids ps cs rl n"
  by (auto simp: RecordArray_ctor_def split: option.splits if_splits)

lemma field_of_key_mem: "field_of_key cs ks key = Some a \<Longrightarrow> a \<in> set cs"
  by (auto simp: field_of_key_def split: option.splits if_splits)

lemma merge_field_length:
  assumes "outside_laws X" and "merge_law X M"
    and "valid X a" "n \<le> length_of X a" "0 \<le> n"
    and "valid X b" "on \<le> length_of X b" "0 \<le> on"
    and "RecordArray_merge_field X M n on a b = Inr m"
  shows "length_of X m = n + on"
proof -
  obtain mine theirs where mine: "getitem_range_nowrap X a 0 n = Inr mine"
    and theirs: "getitem_range_nowrap X b 0 on = Inr theirs"
    and m: "M mine theirs = Inr m"
    using assms(9) by (auto simp: RecordArray_merge_field_def split: sum.splits)
  have 1: "valid X mine \<and> length_of X mine = n"
    by (rule range_nowrap_valid [OF assms(1) assms(3) assms(5) assms(4) mine])
  have 2: "valid X theirs \<and> length_of X theirs = on"
    by (rule range_nowrap_valid [OF assms(1) assms(6) assms(8) assms(7) theirs])
  show ?thesis using assms(2) 1 2 m unfolding merge_law_def by metis
qed

lemma RecordArray_fields_merged:
  assumes "outside_laws X" and "merge_law X M"
    and v: "valid X (RecordArray ids ps cs rl n)"
    and vo: "valid X (RecordArray oids ops ocs orl on)"
    and ne: "contents \<noteq> []"
    and each: "\<forall>m\<in>set contents. \<exists>a\<in>set cs. \<exists>b\<in>set ocs.
                 RecordArray_merge_field X M n on a b = Inr m"
    and r: "RecordArray_ctor4 X None [] contents rl' = Inr r"
  shows "length_of X r = n + on"
proof -
  have n: "0 \<le> n" "0 \<le> on" using v vo by simp_all
  have "\<forall>m\<in>set contents. length_of X m = n + on"
  proof
    fix m assume "m \<in> set contents"
    then obtain a b where a: "a \<in> set cs" and b: "b \<in> set ocs"
      and m: "RecordArray_merge_field X M n on a b = Inr m"
      using each by blast
    have va: "valid X a" "n \<le> length_of X a" using v a by (simp_all add: list_all_iff)
    have vb: "valid X b" "on \<le> length_of X b" using vo b by (simp_all add: list_all_iff)
    show "length_of X m = n + on"
      by (rule merge_field_length [OF assms(1,2) va n(1) vb n(2) m])
  qed
  then have "minlength X contents = n + on"
    using ne n by (intro minlength_const) simp_all
  then show ?thesis
    using r RecordArray_ctor_Inr [of None "[]" contents rl' "minlength X contents" r]
    by (simp add: RecordArray_ctor4_def)
qed

lemma mapM_Inr_set:
  assumes "mapM f xs = Inr ys"
  shows "length ys = length xs \<and> (\<forall>y\<in>set ys. \<exists>x\<in>set xs. f x = Inr y)"
proof -
  have "list_all2 (\<lambda>x y. f x = Inr y) xs ys" by (rule mapM_Inr_list_all2 [OF assms])
  then show ?thesis
    by (induction rule: list_all2_induct) auto
qed

lemma merge_as_union_length:
  "0 \<le> length_of X a \<Longrightarrow> 0 \<le> length_of X b \<Longrightarrow> merge_as_union X a b = Inr r \<Longrightarrow>
   length_of X r = length_of X a + length_of X b"
  by (auto simp: merge_as_union_def Let_def)

lemma toIndexedOptionArray64_length:
  "0 \<le> length_of X c \<Longrightarrow>
   length_of X (UnmaskedArray_toIndexedOptionArray64 X ids ps c) = length_of X c"
  by (simp add: UnmaskedArray_toIndexedOptionArray64_def awkward_carry_arange_64_def)

lemma toIndexedOptionArray64_outside:
  "outside (UnmaskedArray_toIndexedOptionArray64 X ids ps c)"
  by (simp add: UnmaskedArray_toIndexedOptionArray64_def outside_def)

lemma toIndexedOptionArray64_valid:
  "valid X c \<Longrightarrow> valid X (UnmaskedArray_toIndexedOptionArray64 X ids ps c)"
  using valid_nonneg [of X c]
  by (simp add: UnmaskedArray_toIndexedOptionArray64_def)

lemma RecordArray_merge_Record_law:
  assumes L: "outside_laws X" and M: "merge_law X M"
    and v: "valid X (RecordArray ids ps cs rl n)"
    and vo: "valid X (RecordArray oids ops ocs orl on)"
    and eq: "parameters_equal ps ops"
    and m: "RecordArray_merge X M ids ps cs rl n (RecordArray oids ops ocs orl on) = Inr r"
  shows "length_of X r = n + on"
proof (cases "(rl = None) = (orl = None) \<and> cs = [] \<and> ocs = []")
  case True
  then have "RecordArray_ctor None [] cs None (n + on) = Inr r"
    using m eq by (simp add: RecordArray_merge_def)
  then show ?thesis using RecordArray_ctor_Inr by fastforce
next
  case False
  show ?thesis
  proof (cases rl)
    case None
    show ?thesis
    proof (cases orl)
      case (Some oks)
      then show ?thesis using m eq None False by (simp add: RecordArray_merge_def)
    next
      case onone: None
      have len: "length cs = length ocs"
        using m eq None onone False by (simp add: RecordArray_merge_def split: if_splits)
      obtain contents where c: "mapM (\<lambda>(a, b). RecordArray_merge_field X M n on a b) (zip cs ocs) = Inr contents"
        and r: "RecordArray_ctor4 X None [] contents rl = Inr r"
        using m eq None onone False len
        by (auto simp: RecordArray_merge_def split: sum.splits)
      have ne: "cs \<noteq> []" using False None onone len by (cases cs; cases ocs) auto
      have "length contents = length (zip cs ocs)" using mapM_Inr_set [OF c] by (rule conjunct1)
      then have "length contents = length cs" using len by simp
      then have ne': "contents \<noteq> []" using ne by (cases contents) simp_all
      have each: "\<forall>m\<in>set contents. \<exists>x\<in>set (zip cs ocs). (\<lambda>(a, b). RecordArray_merge_field X M n on a b) x = Inr m"
        using mapM_Inr_set [OF c] by (rule conjunct2)
      have "\<forall>m\<in>set contents. \<exists>a\<in>set cs. \<exists>b\<in>set ocs. RecordArray_merge_field X M n on a b = Inr m"
      proof
        fix m assume "m \<in> set contents"
        then obtain a b where "(a, b) \<in> set (zip cs ocs)" "RecordArray_merge_field X M n on a b = Inr m"
          using each by fastforce
        then show "\<exists>a\<in>set cs. \<exists>b\<in>set ocs. RecordArray_merge_field X M n on a b = Inr m"
          by (meson set_zip_leftD set_zip_rightD)
      qed
      then show ?thesis by (rule RecordArray_fields_merged [OF L M v vo ne' _ r])
    qed
  next
    case (Some ks)
    show ?thesis
    proof (cases orl)
      case None
      then show ?thesis using m eq Some False by (simp add: RecordArray_merge_def)
    next
      case osome: (Some oks)
      let ?f = "\<lambda>key. case field_of_key cs ks key of
                        None \<Rightarrow> Inl (invalid_argument ''key not found'')
                      | Some a \<Rightarrow>
                          (case field_of_key ocs oks key of
                             None \<Rightarrow> Inl (invalid_argument ''key not found'')
                           | Some b \<Rightarrow> RecordArray_merge_field X M n on a b)"
      have srt: "sort ks = sort oks"
        using m eq Some osome False by (simp add: RecordArray_merge_def split: if_splits)
      obtain contents where c: "mapM ?f ks = Inr contents"
        and r: "RecordArray_ctor4 X None [] contents rl = Inr r"
        using m eq Some osome False srt
        by (auto simp: RecordArray_merge_def split: sum.splits)
      have "length ks = length oks" using srt by (metis length_sort)
      moreover have "length ks = length cs" "length oks = length ocs"
        using v vo Some osome by simp_all
      ultimately have ne: "ks \<noteq> []" using False Some osome by auto
      have "length contents = length ks" using mapM_Inr_set [OF c] by (rule conjunct1)
      then have ne': "contents \<noteq> []" using ne by (cases contents) simp_all
      have each: "\<forall>m\<in>set contents. \<exists>key\<in>set ks. ?f key = Inr m"
        using mapM_Inr_set [OF c] by (rule conjunct2)
      have "\<forall>m\<in>set contents. \<exists>a\<in>set cs. \<exists>b\<in>set ocs. RecordArray_merge_field X M n on a b = Inr m"
      proof
        fix m assume "m \<in> set contents"
        then obtain key where "?f key = Inr m" using each by blast
        then obtain a b where "field_of_key cs ks key = Some a" "field_of_key ocs oks key = Some b"
          "RecordArray_merge_field X M n on a b = Inr m"
          by (auto split: option.splits)
        then show "\<exists>a\<in>set cs. \<exists>b\<in>set ocs. RecordArray_merge_field X M n on a b = Inr m"
          using field_of_key_mem by blast
      qed
      then show ?thesis by (rule RecordArray_fields_merged [OF L M v vo ne' _ r])
    qed
  qed
qed

lemma outside_reverse_merge_length:
  assumes "outside_laws X" and "outside c" and "valid X c" and "valid X other"
    and "x_reverse_merge X c other = Inr r"
  shows "length_of X r = length_of X other + length_of X c"
  using assms unfolding outside_laws_def by blast

lemma outside_merge_length:
  assumes "outside_laws X" and "outside c" and "valid X c" and "valid X other"
    and "x_merge X c other = Inr r"
  shows "length_of X r = length_of X c + length_of X other"
  using assms unfolding outside_laws_def by blast

lemma UnmaskedArray_reverse_merge_length:
  assumes L: "outside_laws X" and v: "valid X c" and vo: "valid X other"
    and m: "UnmaskedArray_reverse_merge X ids ps c other = Inr r"
  shows "length_of X r = length_of X other + length_of X c"
proof -
  let ?i = "UnmaskedArray_toIndexedOptionArray64 X ids ps c"
  have "x_reverse_merge X ?i other = Inr r" using m by (simp add: UnmaskedArray_reverse_merge_def)
  then have "length_of X r = length_of X other + length_of X ?i"
    by (rule outside_reverse_merge_length
          [OF L toIndexedOptionArray64_outside toIndexedOptionArray64_valid [OF v] vo])
  then show ?thesis using toIndexedOptionArray64_length [OF valid_nonneg [OF v]] by simp
qed

lemma UnmaskedArray_merge_length:
  assumes L: "outside_laws X" and v: "valid X c" and vo: "valid X other"
    and m: "UnmaskedArray_merge X ids ps c other = Inr r"
  shows "length_of X r = length_of X c + length_of X other"
proof -
  let ?i = "UnmaskedArray_toIndexedOptionArray64 X ids ps c"
  have "x_merge X ?i other = Inr r" using m by (simp add: UnmaskedArray_merge_def)
  then have "length_of X r = length_of X ?i + length_of X other"
    by (rule outside_merge_length
          [OF L toIndexedOptionArray64_outside toIndexedOptionArray64_valid [OF v] vo])
  then show ?thesis using toIndexedOptionArray64_length [OF valid_nonneg [OF v]] by simp
qed

lemma RecordArray_merge_law:
  assumes L: "outside_laws X" and M: "merge_law X M"
    and v: "valid X (RecordArray ids ps cs rl n)" and vo: "valid X other"
    and m: "RecordArray_merge X M ids ps cs rl n other = Inr r"
  shows "length_of X r = n + length_of X other"
proof (cases "parameters_equal ps (parameters other)")
  case False
  then have "merge_as_union X (RecordArray ids ps cs rl n) other = Inr r"
    using m by (simp add: RecordArray_merge_def)
  then have "length_of X r = length_of X (RecordArray ids ps cs rl n) + length_of X other"
    by (rule merge_as_union_length [OF valid_nonneg [OF v] valid_nonneg [OF vo]])
  then show ?thesis by simp
next
  case True
  have self: "RecordArray_ctor ids ps cs rl n = Inr (RecordArray ids ps cs rl n)"
    using v by (auto simp: RecordArray_ctor_def split: option.splits)
  show ?thesis
  proof (cases other)
    case (EmptyArray oids ops)
    then have "RecordArray_ctor ids ps cs rl n = Inr r"
      using m True by (simp add: RecordArray_merge_def)
    then show ?thesis using EmptyArray RecordArray_ctor_Inr by fastforce
  next
    case (IndexedArrayOf ok oids ops oix oc)
    then have "x_reverse_merge X other (RecordArray ids ps cs rl n) = Inr r"
      using m True by (simp add: RecordArray_merge_def self)
    moreover have "outside other" using IndexedArrayOf by (simp add: outside_def)
    ultimately show ?thesis using outside_reverse_merge_length [OF L _ vo v] by simp
  next
    case (ByteMaskedArray oids ops om oc ovw)
    then have "x_reverse_merge X other (RecordArray ids ps cs rl n) = Inr r"
      using m True by (simp add: RecordArray_merge_def self)
    moreover have "outside other" using ByteMaskedArray by (simp add: outside_def)
    ultimately show ?thesis using outside_reverse_merge_length [OF L _ vo v] by simp
  next
    case (BitMaskedArray oids ops om oc ovw olsb on)
    then have "x_reverse_merge X other (RecordArray ids ps cs rl n) = Inr r"
      using m True by (simp add: RecordArray_merge_def self)
    moreover have "outside other" using BitMaskedArray by (simp add: outside_def)
    ultimately show ?thesis using outside_reverse_merge_length [OF L _ vo v] by simp
  next
    case (UnmaskedArray oids ops oc)
    then have "UnmaskedArray_reverse_merge X oids ops oc (RecordArray ids ps cs rl n) = Inr r"
      using m True by (simp add: RecordArray_merge_def self)
    moreover have "valid X oc" using vo UnmaskedArray by simp
    ultimately have "length_of X r = length_of X (RecordArray ids ps cs rl n) + length_of X oc"
      using UnmaskedArray_reverse_merge_length [OF L _ v] by blast
    then show ?thesis using UnmaskedArray by simp
  next
    case (UnionArrayOf ok oids ops otags oindex ocs)
    then have "UnionArrayOf_reverse_merge X ok oids ops otags oindex ocs (RecordArray ids ps cs rl n) = Inr r"
      using m True by (simp add: RecordArray_merge_def self)
    then have "length_of X r = length_of X (RecordArray ids ps cs rl n) + int (length otags)"
      using UnionArrayOf_reverse_merge_length valid_nonneg [OF v] by blast
    then show ?thesis using UnionArrayOf by simp
  next
    case (RecordArray oids ops ocs orl on)
    then show ?thesis
      using RecordArray_merge_Record_law [OF L M v _ _ _, of oids ops ocs orl on r] vo True m
      by simp
  next
    case (OtherArray ocn oids ops obufs ocs)
    then show ?thesis using m True by (simp add: RecordArray_merge_def)
  qed
qed

lemma merge_d_law:
  assumes L: "outside_laws X"
  shows "merge_law X (merge_d d X)"
proof (induction d)
  case 0
  let ?M = "\<lambda>a b. Inl (runtime_error ''merge: nesting exceeded'') :: error + content"
  have M: "merge_law X ?M" by (simp add: merge_law_def)
  show ?case unfolding merge_law_def
  proof (intro allI impI)
    fix a b r
    assume v: "valid X a" and vo: "valid X b" and m: "merge_d 0 X a b = Inr r"
    show "length_of X r = length_of X a + length_of X b"
    proof (cases a)
      case (RecordArray ids ps cs rl n)
      then show ?thesis using RecordArray_merge_law [OF L M, of ids ps cs rl n b r] v vo m by simp
    next
      case (UnionArrayOf k ids ps tags index cs)
      then show ?thesis using UnionArrayOf_merge_length [of X b k ids ps tags index cs r]
          valid_nonneg [OF vo] m by simp
    next
      case (UnmaskedArray ids ps c)
      then show ?thesis using UnmaskedArray_merge_length [OF L _ vo, of c ids ps r] v m by simp
    qed (use outside_merge_length [OF L _ v vo, of r] m in \<open>simp_all add: outside_def\<close>)
  qed
next
  case (Suc d)
  show ?case unfolding merge_law_def
  proof (intro allI impI)
    fix a b r
    assume v: "valid X a" and vo: "valid X b" and m: "merge_d (Suc d) X a b = Inr r"
    show "length_of X r = length_of X a + length_of X b"
    proof (cases a)
      case (RecordArray ids ps cs rl n)
      then show ?thesis using RecordArray_merge_law [OF L Suc, of ids ps cs rl n b r] v vo m by simp
    next
      case (UnionArrayOf k ids ps tags index cs)
      then show ?thesis using UnionArrayOf_merge_length [of X b k ids ps tags index cs r]
          valid_nonneg [OF vo] m by simp
    next
      case (UnmaskedArray ids ps c)
      then show ?thesis using UnmaskedArray_merge_length [OF L _ vo, of c ids ps r] v m by simp
    qed (use outside_merge_length [OF L _ v vo, of r] m in \<open>simp_all add: outside_def\<close>)
  qed
qed

lemma x_merge_ext0:
  "x_merge ext0 c other =
     (if \<not> parameters_equal (parameters c) (parameters other)
      then merge_as_union ext0 c other
      else if is_EmptyArray other then Inr c
      else Inl (runtime_error ''not modelled''))"
  unfolding merge_as_union_ext0 by (simp add: ext0_def)

lemma x_reverse_merge_ext0: "x_reverse_merge ext0 c other = merge_as_union ext0 other c"
  unfolding merge_as_union_ext0 by (simp add: ext0_def)

lemma is_EmptyArray_length: "is_EmptyArray c \<Longrightarrow> length_of X c = 0"
  by (cases c) simp_all

lemma x_getitem_range_nowrap_ext0_eq:
  "x_getitem_range_nowrap ext0 c start stop =
     (case c of
        EmptyArray ids ps \<Rightarrow> Inr c
      | IndexedArrayOf k ids ps ix ch \<Rightarrow>
          Inr (IndexedArrayOf k (Identities_getitem_range_nowrap ids start stop) ps
                 (Index_getitem_range_nowrap ix start stop) ch)
      | OtherArray cn ids ps bufs cs \<Rightarrow>
          Inr (OtherArray cn (Identities_getitem_range_nowrap ids start stop) ps
                 (map (\<lambda>b. Index_getitem_range_nowrap b start stop) bufs) cs)
      | _ \<Rightarrow> Inl (runtime_error ''not modelled''))"
  by (simp add: ext0_def ext_base_def)

lemma x_length_ext0:
  "x_length ext0 (OtherArray cn ids ps bufs cs) = (case bufs of [] \<Rightarrow> 0 | b # bs \<Rightarrow> int (length b))"
  by (simp add: ext0_def ext_base_def)

lemma x_getitem_range_nowrap_ext0:
  assumes "outside c" and "valid ext0 c" and "0 \<le> stop" and "stop \<le> length_of ext0 c"
    and "x_getitem_range_nowrap ext0 c 0 stop = Inr r"
  shows "valid ext0 r \<and> length_of ext0 r = stop"
proof (cases c)
  case (EmptyArray ids ps)
  then show ?thesis using assms by (auto simp: x_getitem_range_nowrap_ext0_eq)
next
  case (IndexedArrayOf k ids ps ix ch)
  then show ?thesis using assms
    by (auto simp: x_getitem_range_nowrap_ext0_eq Index_getitem_range_nowrap_def)
next
  case (OtherArray cn ids ps bufs cs)
  then show ?thesis using assms
    by (cases bufs)
       (auto simp: x_getitem_range_nowrap_ext0_eq x_length_ext0 Index_getitem_range_nowrap_def)
qed (use assms in \<open>simp_all add: x_getitem_range_nowrap_ext0_eq outside_def\<close>)

lemma outside_laws_ext0: "outside_laws ext0"
  unfolding outside_laws_def
proof (intro conjI allI impI)
  fix c other r
  assume o: "outside c" and v: "valid ext0 c" and vo: "valid ext0 other"
    and m: "x_merge ext0 c other = Inr r"
  show "length_of ext0 r = length_of ext0 c + length_of ext0 other"
  proof (cases "parameters_equal (parameters c) (parameters other)")
    case False
    then have "merge_as_union ext0 c other = Inr r" using m by (simp add: x_merge_ext0)
    then show ?thesis by (rule merge_as_union_length [OF valid_nonneg [OF v] valid_nonneg [OF vo]])
  next
    case True
    then have "is_EmptyArray other \<and> r = c" using m by (simp add: x_merge_ext0 split: if_splits)
    then show ?thesis by (simp add: is_EmptyArray_length)
  qed
next
  fix c other r
  assume o: "outside c" and v: "valid ext0 c" and vo: "valid ext0 other"
    and m: "x_reverse_merge ext0 c other = Inr r"
  have "merge_as_union ext0 other c = Inr r" using m by (simp add: x_reverse_merge_ext0)
  then show "length_of ext0 r = length_of ext0 other + length_of ext0 c"
    by (rule merge_as_union_length [OF valid_nonneg [OF vo] valid_nonneg [OF v]])
next
  fix c stop r
  assume "outside c" "valid ext0 c" "0 \<le> stop" "stop \<le> length_of ext0 c"
    "x_getitem_range_nowrap ext0 c 0 stop = Inr r"
  then show "valid ext0 r" by (rule x_getitem_range_nowrap_ext0 [THEN conjunct1])
next
  fix c stop r
  assume "outside c" "valid ext0 c" "0 \<le> stop" "stop \<le> length_of ext0 c"
    "x_getitem_range_nowrap ext0 c 0 stop = Inr r"
  then show "length_of ext0 r = stop" by (rule x_getitem_range_nowrap_ext0 [THEN conjunct2])
qed

section \<open>The claims\<close>

text \<open>
  C1, as the code has it. With the canonical tags, index and contents the loops end with
  (and an index no shorter than the tags): one canonical content gives
  \<open>canonical[0].carry(index)\<close>, which is a union again when that content is a union (only one
  level of nesting is opened) and not a union when it is a record or an unmasked node; from
  2 to 127 canonical contents give the \<open>UnionArray8_64\<close> over the canonical tags, index and
  contents, with the identities and parameters of the node; more than 127 is the exception.
\<close>

theorem C1_simplify_uniontype_result:
  assumes "length self_tags \<le> length self_index"
    and "simplify_canonical X mergebool self_tags self_index self_contents
           = Inr (tags, index, contents)"
  shows "(length contents = 1 \<longrightarrow>
            UnionArrayOf_simplify_uniontype X mergebool k ids ps self_tags self_index self_contents
              = carry X (contents ! 0) index
            \<and> (\<forall>r. carry X (contents ! 0) index = Inr r \<longrightarrow>
                  (is_UnionArray (contents ! 0) \<longrightarrow> is_UnionArray r)
                  \<and> (is_RecordArray (contents ! 0) \<or> is_UnmaskedArray (contents ! 0)
                       \<longrightarrow> \<not> is_UnionArray r)))
       \<and> (1 < length contents \<and> length contents \<le> 127 \<longrightarrow>
            UnionArrayOf_simplify_uniontype X mergebool k ids ps self_tags self_index self_contents
              = Inr (UnionArrayOf UnionArray8_64 ids ps tags index contents))
       \<and> (127 < length contents \<longrightarrow>
            UnionArrayOf_simplify_uniontype X mergebool k ids ps self_tags self_index self_contents
              = Inl (runtime_error ''FIXME: handle UnionArray with more than 127 contents''))"
proof -
  have b: "length tags = length self_tags" "length index = length self_tags"
    using simplify_canonical_buffers [OF assms(2)] by simp_all
  have one: "\<forall>r. carry X (contents ! 0) index = Inr r \<longrightarrow>
                  (is_UnionArray (contents ! 0) \<longrightarrow> is_UnionArray r)
                  \<and> (is_RecordArray (contents ! 0) \<or> is_UnmaskedArray (contents ! 0)
                       \<longrightarrow> \<not> is_UnionArray r)"
    using carry_class by blast
  have res: "UnionArrayOf_simplify_uniontype X mergebool k ids ps self_tags self_index self_contents
      = (if length contents > kMaxInt8
             then Inl (runtime_error ''FIXME: handle UnionArray with more than 127 contents'')
             else if length contents = 1 then carry X (contents ! 0) index
             else UnionArrayOf_ctor UnionArray8_64 ids ps tags index contents)"
    using assms by (simp add: UnionArrayOf_simplify_uniontype_def)
  show ?thesis
    using one b by (auto simp: res kMaxInt8_def UnionArrayOf_ctor_def)
qed

text \<open>C1 at a union of two records with different parameters.\<close>

theorem C1_witness:
  "length [0, 1, 0 :: int] \<le> length [0, 0, 1 :: int]
   \<and> simplify_canonical ext0 False [0, 1, 0] [0, 0, 1]
         [RecordArray None [] [] None 2, RecordArray None [(''a'', ''b'')] [] None 1]
       = Inr ([0, 1, 0], [0, 0, 1],
              [RecordArray None [] [] None 2, RecordArray None [(''a'', ''b'')] [] None 1])
   \<and> UnionArrayOf_simplify_uniontype ext0 False UnionArray8_32 None [] [0, 1, 0] [0, 0, 1]
         [RecordArray None [] [] None 2, RecordArray None [(''a'', ''b'')] [] None 1]
       = Inr (UnionArrayOf UnionArray8_64 None [] [0, 1, 0] [0, 0, 1]
                [RecordArray None [] [] None 2, RecordArray None [(''a'', ''b'')] [] None 1])"
proof -
  have l: "length [0, 1, 0 :: int] \<le> length [0, 0, 1 :: int]" by simp
  have c: "simplify_canonical ext0 False [0, 1, 0] [0, 0, 1]
         [RecordArray None [] [] None 2, RecordArray None [(''a'', ''b'')] [] None 1]
       = Inr ([0, 1, 0], [0, 0, 1],
              [RecordArray None [] [] None 2, RecordArray None [(''a'', ''b'')] [] None 1])"
    by code_simp
  show ?thesis
    using C1_simplify_uniontype_result [OF l c, of UnionArray8_32 None "[]"] l c by simp
qed


text \<open>
  C1 as stated fails: a union whose only content is a union whose only content is a union
  has one canonical content, and the result of \<open>simplify_uniontype\<close> is a union.
\<close>

theorem C1_counterexample:
  "simplify_canonical ext0 False [0] [0]
       [UnionArrayOf UnionArray8_64 None [] [0] [0]
          [UnionArrayOf UnionArray8_64 None [] [0] [0] [RecordArray None [] [] None 1]]]
     = Inr ([0], [0],
            [UnionArrayOf UnionArray8_64 None [] [0] [0] [RecordArray None [] [] None 1]])
   \<and> UnionArrayOf_simplify_uniontype ext0 False UnionArray8_64 None [] [0] [0]
       [UnionArrayOf UnionArray8_64 None [] [0] [0]
          [UnionArrayOf UnionArray8_64 None [] [0] [0] [RecordArray None [] [] None 1]]]
     = Inr (UnionArrayOf UnionArray8_64 None [] [0] [0] [RecordArray None [] [] None 1])"
  by code_simp

text \<open>
  C5, as the code has it. For a union with fewer than 127 contents and tags within its
  contents, \<open>reverse_merge(other)\<close> is the \<open>UnionArray8_64\<close> whose contents are \<open>other\<close>
  followed by the contents of the union: row \<open>i\<close> below \<open>len(other)\<close> has tag 0 and index
  \<open>i\<close>, and row \<open>len(other) + j\<close> has the tag of row \<open>j\<close> plus one and the index of row \<open>j\<close>.
\<close>

theorem C5_UnionArray_reverse_merge:
  assumes "length self_contents < 127"
    and "0 \<le> length_of X other"
    and "list_all (\<lambda>t. 0 \<le> t \<and> t < int (length self_contents)) self_tags"
    and "length self_tags \<le> length self_index"
  shows "UnionArrayOf_reverse_merge X k ids ps self_tags self_index self_contents other =
           Inr (UnionArrayOf UnionArray8_64 None []
                  (replicate (nat (length_of X other)) 0 @ map (\<lambda>t. t + 1) self_tags)
                  (map int [0..<nat (length_of X other)] @ take (length self_tags) self_index)
                  (other # self_contents))
       \<and> (\<forall>i < nat (length_of X other).
             (replicate (nat (length_of X other)) 0 @ map (\<lambda>t. t + 1) self_tags) ! i = 0
             \<and> (map int [0..<nat (length_of X other)] @ take (length self_tags) self_index) ! i
                 = int i)
       \<and> (\<forall>j < length self_tags.
             (replicate (nat (length_of X other)) 0 @ map (\<lambda>t. t + 1) self_tags)
                 ! (nat (length_of X other) + j) = self_tags ! j + 1
             \<and> (map int [0..<nat (length_of X other)] @ take (length self_tags) self_index)
                 ! (nat (length_of X other) + j) = self_index ! j)"
proof (intro conjI allI impI)
  show "UnionArrayOf_reverse_merge X k ids ps self_tags self_index self_contents other =
           Inr (UnionArrayOf UnionArray8_64 None []
                  (replicate (nat (length_of X other)) 0 @ map (\<lambda>t. t + 1) self_tags)
                  (map int [0..<nat (length_of X other)] @ take (length self_tags) self_index)
                  (other # self_contents))"
    by (rule reverse_merge_value [OF assms])
qed (simp_all add: nth_append)


text \<open>C5 at a union of three rows over two contents and a record of two rows.\<close>

theorem C5_witness:
  "length [RecordArray None [] [] None 1, RecordArray None [] [] None 1] < 127
   \<and> 0 \<le> length_of ext0 (RecordArray None [] [] None 2)
   \<and> list_all (\<lambda>t. 0 \<le> t \<and> t < 2) [0, 1, 0 :: int]
   \<and> UnionArrayOf_reverse_merge ext0 UnionArray8_32 None [] [0, 1, 0] [0, 0, 1]
         [RecordArray None [] [] None 1, RecordArray None [] [] None 1]
         (RecordArray None [] [] None 2)
       = Inr (UnionArrayOf UnionArray8_64 None [] [0, 0, 1, 2, 1] [0, 1, 0, 0, 1]
                [RecordArray None [] [] None 2, RecordArray None [] [] None 1,
                 RecordArray None [] [] None 1])"
  using C5_UnionArray_reverse_merge [of
      "[RecordArray None [] [] None 1, RecordArray None [] [] None 1]" ext0
      "RecordArray None [] [] None 2" "[0, 1, 0]" "[0, 0, 1]" UnionArray8_32 None "[]"]
  by (simp add: numeral_2_eq_2)


text \<open>C5 as stated fails: \<open>reverse_merge\<close> of a union with 127 contents throws.\<close>

theorem C5_counterexample:
  "UnionArrayOf_reverse_merge ext0 UnionArray8_64 None [] [126] [0]
       (replicate 127 (RecordArray None [] [] None 1)) (RecordArray None [] [] None 1)
     = Inl (runtime_error ''FIXME: handle UnionArray with more than 127 contents'')"
  by (simp add: UnionArrayOf_reverse_merge_def Let_def kMaxInt8_def)


text \<open>
  C6. \<open>simplify_optiontype\<close> of an \<open>UnmaskedArray\<close> returns the child itself when the child
  is an Indexed, IndexedOption, ByteMasked, BitMasked or Unmasked node, and otherwise the
  node it was called on (same identities, parameters and child).
\<close>

theorem C6_UnmaskedArray_simplify_optiontype:
  "UnmaskedArray_simplify_optiontype ids ps c =
     (if is_Indexed_kind c \<or> is_IndexedOption_kind c \<or> is_ByteMasked_kind c
         \<or> is_BitMasked_kind c \<or> is_UnmaskedArray c
      then c else UnmaskedArray ids ps c)"
proof (cases c)
  case (IndexedArrayOf k ids' ps' ix c')
  then show ?thesis by (cases k) (simp_all add: UnmaskedArray_simplify_optiontype_def)
qed (simp_all add: UnmaskedArray_simplify_optiontype_def)


text \<open>
  C10. A record built by the four-argument constructor has the length \<open>minlength\<close>
  computes: the minimum of the lengths of its fields (lengths are not negative), and 0 when
  it has no field; the five-argument constructor keeps the length it is given, which is the
  only way a record with no field has a length other than 0.
\<close>

theorem C10_RecordArray_length_minlength:
  assumes "\<forall>c\<in>set contents. 0 \<le> length_of X c"
    and "case recordlookup of None \<Rightarrow> True | Some keys \<Rightarrow> length keys = length contents"
  shows "(\<exists>r. RecordArray_ctor4 X ids ps contents recordlookup = Inr r
            \<and> length_of X r
                = (if contents = [] then 0 else Min (set (map (length_of X) contents))))
       \<and> (\<exists>r. RecordArray_ctor ids ps contents recordlookup n = Inr r \<and> length_of X r = n)"
proof -
  have len: "minlength X contents
               = (if contents = [] then 0 else Min (set (map (length_of X) contents)))"
    using minlength_nonempty [OF _ assms(1)] by (simp add: minlength_def)
  have "\<exists>r. RecordArray_ctor4 X ids ps contents recordlookup = Inr r
           \<and> length_of X r
               = (if contents = [] then 0 else Min (set (map (length_of X) contents)))"
    using assms(2) len
    by (cases recordlookup) (simp_all add: RecordArray_ctor4_def RecordArray_ctor_def)
  moreover have "\<exists>r. RecordArray_ctor ids ps contents recordlookup n = Inr r \<and> length_of X r = n"
    using assms(2) by (cases recordlookup) (simp_all add: RecordArray_ctor_def)
  ultimately show ?thesis by blast
qed

text \<open>C10 at a record of two fields, of lengths 5 and 2.\<close>

theorem C10_witness:
  "list_all (\<lambda>c. 0 \<le> length_of ext0 c)
      [RecordArray None [] [] None 5, UnionArrayOf UnionArray8_64 None [] [0, 0] [0, 1]
         [RecordArray None [] [] None 2]]
   \<and> (\<exists>r. RecordArray_ctor4 ext0 None []
              [RecordArray None [] [] None 5, UnionArrayOf UnionArray8_64 None [] [0, 0] [0, 1]
                 [RecordArray None [] [] None 2]] (Some [''x'', ''y'']) = Inr r
            \<and> length_of ext0 r = 2)
   \<and> (\<exists>r. RecordArray_ctor None []
              [RecordArray None [] [] None 5, UnionArrayOf UnionArray8_64 None [] [0, 0] [0, 1]
                 [RecordArray None [] [] None 2]] (Some [''x'', ''y'']) 7 = Inr r
            \<and> length_of ext0 r = 7)"
  using C10_RecordArray_length_minlength [of
      "[RecordArray None [] [] None 5, UnionArrayOf UnionArray8_64 None [] [0, 0] [0, 1]
         [RecordArray None [] [] None 2]]" ext0 "Some [''x'', ''y'']" None "[]" 7]
  by simp

text \<open>
  C9. The three operations that can add contents to a union end in an exception when the
  contents they have gathered are more than 127: \<open>simplify_uniontype\<close> on its canonical
  contents, \<open>merge\<close> of a union on its contents followed by those \<open>other\<close> brings (past the
  tests for parameters and \<open>Empty\<close>, where nothing is added), and \<open>reverse_merge\<close> on \<open>other\<close>
  followed by its contents.
\<close>

theorem C9_union_arm_limit:
  "(simplify_canonical X mergebool self_tags self_index self_contents
        = Inr (tags, index, contents)
      \<longrightarrow> 127 < length contents
      \<longrightarrow> (\<exists>e. UnionArrayOf_simplify_uniontype X mergebool k ids ps self_tags self_index
                  self_contents = Inl e))
   \<and> (parameters_equal ps (parameters other) \<longrightarrow> \<not> is_EmptyArray other
      \<longrightarrow> 127 < length (self_contents @ arms_of other)
      \<longrightarrow> merge X (UnionArrayOf k ids ps self_tags self_index self_contents) other
            = Inl (runtime_error ''FIXME: handle UnionArray with more than 127 contents''))
   \<and> (127 < length (other # self_contents)
      \<longrightarrow> UnionArrayOf_reverse_merge X k ids ps self_tags self_index self_contents other
            = Inl (runtime_error ''FIXME: handle UnionArray with more than 127 contents''))"
proof (intro conjI impI)
  assume "simplify_canonical X mergebool self_tags self_index self_contents
            = Inr (tags, index, contents)" and "127 < length contents"
  then show "\<exists>e. UnionArrayOf_simplify_uniontype X mergebool k ids ps self_tags self_index
                  self_contents = Inl e"
    by (simp add: UnionArrayOf_simplify_uniontype_def kMaxInt8_def)
next
  assume p: "parameters_equal ps (parameters other)" and e: "\<not> is_EmptyArray other"
    and big: "127 < length (self_contents @ arms_of other)"
  show "merge X (UnionArrayOf k ids ps self_tags self_index self_contents) other
            = Inl (runtime_error ''FIXME: handle UnionArray with more than 127 contents'')"
  proof (cases "is_UnionArray other")
    case True
    then obtain ok oids ops ot oi ocs where o: "other = UnionArrayOf ok oids ops ot oi ocs"
      by (cases other) simp_all
    show ?thesis
      using p big
      by (simp add: merge_UnionArrayOf UnionArrayOf_merge_def o arms_of_def Let_def kMaxInt8_def)
  next
    case False
    then have a: "arms_of other = [other]" by (cases other) (simp_all add: arms_of_def)
    show ?thesis
      using p e big False unfolding merge_UnionArrayOf UnionArrayOf_merge_def a
      by (cases other) (simp_all add: Let_def kMaxInt8_def)
  qed
next
  assume "127 < length (other # self_contents)"
  then show "UnionArrayOf_reverse_merge X k ids ps self_tags self_index self_contents other
            = Inl (runtime_error ''FIXME: handle UnionArray with more than 127 contents'')"
    by (simp add: UnionArrayOf_reverse_merge_def Let_def kMaxInt8_def)
qed

text \<open>C9 at a union of 128 records with pairwise different parameters, and at a union of
  127 contents that merges with a record.\<close>

theorem C9_witness:
  "simplify_canonical ext0 False [] [] (map labelled_record [0..<128])
       = Inr ([], [], map labelled_record [0..<128])
   \<and> 127 < length (map labelled_record [0..<128])
   \<and> (\<exists>e. UnionArrayOf_simplify_uniontype ext0 False UnionArray8_64 None [] [] []
              (map labelled_record [0..<128]) = Inl e)
   \<and> 127 < length (replicate 127 (RecordArray None [] [] None 1)
                    @ arms_of (RecordArray None [] [] None 1))
   \<and> merge ext0 (UnionArrayOf UnionArray8_64 None [] [126] [0]
                   (replicate 127 (RecordArray None [] [] None 1)))
        (RecordArray None [] [] None 1)
       = Inl (runtime_error ''FIXME: handle UnionArray with more than 127 contents'')
   \<and> UnionArrayOf_reverse_merge ext0 UnionArray8_64 None [] [126] [0]
        (replicate 127 (RecordArray None [] [] None 1)) (RecordArray None [] [] None 1)
       = Inl (runtime_error ''FIXME: handle UnionArray with more than 127 contents'')"
proof -
  have c: "simplify_canonical ext0 False [] [] (map labelled_record [0..<128])
       = Inr ([], [], map labelled_record [0..<128])"
    by (rule simplify_canonical_labelled)
  have l: "127 < length (map labelled_record [0..<128])" by simp
  have p: "parameters_equal [] (parameters (RecordArray None [] [] None 1))"
    by (simp add: parameters_equal_def)
  have a: "127 < length (replicate 127 (RecordArray None [] [] None 1)
                    @ arms_of (RecordArray None [] [] None 1))"
    by (simp add: arms_of_def)
  have b: "127 < length (RecordArray None [] [] None 1
                          # replicate 127 (RecordArray None [] [] None 1))"
    by simp
  note t = C9_union_arm_limit [of ext0 False "[]" "[]" "map labelled_record [0..<128]"
      "[]" "[]" "map labelled_record [0..<128]" UnionArray8_64 None "[]"
      "RecordArray None [] [] None 1"]
  note u = C9_union_arm_limit [of ext0 False "[126]" "[0]"
      "replicate 127 (RecordArray None [] [] None 1)"
      "[]" "[]" "[]" UnionArray8_64 None "[]" "RecordArray None [] [] None 1"]
  from t c l have 1: "\<exists>e. UnionArrayOf_simplify_uniontype ext0 False UnionArray8_64 None [] [] []
              (map labelled_record [0..<128]) = Inl e" by blast
  from u p a have 2: "merge ext0 (UnionArrayOf UnionArray8_64 None [] [126] [0]
                   (replicate 127 (RecordArray None [] [] None 1)))
        (RecordArray None [] [] None 1)
       = Inl (runtime_error ''FIXME: handle UnionArray with more than 127 contents'')"
    by simp
  from u b have 3: "UnionArrayOf_reverse_merge ext0 UnionArray8_64 None [] [126] [0]
        (replicate 127 (RecordArray None [] [] None 1)) (RecordArray None [] [] None 1)
       = Inl (runtime_error ''FIXME: handle UnionArray with more than 127 contents'')"
    by blast
  show ?thesis using c l a 1 2 3 by blast
qed

text \<open>
  C4, as the code has it. When the parameters of \<open>self\<close> and \<open>other\<close> differ, \<open>merge\<close> of a
  record or of a union is \<open>merge_as_union\<close>: the \<open>UnionArray8_64\<close> with the contents \<open>self\<close>
  and \<open>other\<close>, tag 0 for the rows of \<open>self\<close>, tag 1 for those of \<open>other\<close>, each row
  pointing at its own position. An unmasked node hands the merge to the
  \<open>IndexedOptionArray64\<close> it converts to.
\<close>

theorem C4_merge_parameters_differ:
  assumes "\<not> parameters_equal (parameters self) (parameters other)"
  shows "(is_RecordArray self \<or> is_UnionArray self \<longrightarrow>
            merge X self other = merge_as_union X self other
            \<and> merge_as_union X self other
                = Inr (UnionArrayOf UnionArray8_64 None []
                         (replicate (nat (length_of X self)) 0
                            @ replicate (nat (length_of X other)) 1)
                         (map int [0..<nat (length_of X self)]
                            @ map int [0..<nat (length_of X other)])
                         [self, other]))
       \<and> (\<forall>ids ps c. self = UnmaskedArray ids ps c \<longrightarrow>
            merge X self other
              = x_merge X (IndexedArrayOf IndexedOptionArray64 ids ps
                             (map int [0..<nat (length_of X c)]) c) other)"
proof (cases self)
  case (RecordArray ids ps cs rl n)
  then show ?thesis using assms
    by (simp add: merge_RecordArray_differ) (simp add: merge_as_union_def Let_def)
next
  case (UnionArrayOf k ids ps tags index cs)
  then show ?thesis using assms
    by (simp add: merge_UnionArrayOf UnionArrayOf_merge_def) (simp add: merge_as_union_def Let_def)
next
  case (UnmaskedArray ids ps c)
  then show ?thesis
    by (simp add: merge_UnmaskedArray UnmaskedArray_merge_def
          UnmaskedArray_toIndexedOptionArray64_def awkward_carry_arange_64_def)
qed simp_all

text \<open>C4 at two records with different parameters.\<close>

theorem C4_witness:
  "\<not> parameters_equal (parameters (RecordArray None [(''a'', ''b'')] [] None 2))
        (parameters (RecordArray None [] [] None 1))
   \<and> merge ext0 (RecordArray None [(''a'', ''b'')] [] None 2) (RecordArray None [] [] None 1)
       = Inr (UnionArrayOf UnionArray8_64 None [] [0, 0, 1] [0, 1, 0]
                [RecordArray None [(''a'', ''b'')] [] None 2, RecordArray None [] [] None 1])"
proof -
  have p: "\<not> parameters_equal (parameters (RecordArray None [(''a'', ''b'')] [] None 2))
        (parameters (RecordArray None [] [] None 1))"
    by (simp add: parameters_equal_def)
  show ?thesis
    using C4_merge_parameters_differ [OF p, of ext0] p
    by (simp add: numeral_2_eq_2)
qed

text \<open>
  C4 as stated fails for an unmasked \<open>self\<close>: arm 0 of the union is the
  \<open>IndexedOptionArray64\<close> the node converts to, not \<open>self\<close>, so the result is not
  \<open>merge_as_union\<close> of \<open>self\<close> and \<open>other\<close>.
\<close>

theorem C4_counterexample:
  "\<not> parameters_equal (parameters (UnmaskedArray None [(''a'', ''b'')] (RecordArray None [] [] None 2)))
        (parameters (RecordArray None [] [] None 1))
   \<and> merge ext0 (UnmaskedArray None [(''a'', ''b'')] (RecordArray None [] [] None 2))
        (RecordArray None [] [] None 1)
       = Inr (UnionArrayOf UnionArray8_64 None [] [0, 0, 1] [0, 1, 0]
                [IndexedArrayOf IndexedOptionArray64 None [(''a'', ''b'')] [0, 1]
                   (RecordArray None [] [] None 2),
                 RecordArray None [] [] None 1])
   \<and> merge_as_union ext0 (UnmaskedArray None [(''a'', ''b'')] (RecordArray None [] [] None 2))
        (RecordArray None [] [] None 1)
       = Inr (UnionArrayOf UnionArray8_64 None [] [0, 0, 1] [0, 1, 0]
                [UnmaskedArray None [(''a'', ''b'')] (RecordArray None [] [] None 2),
                 RecordArray None [] [] None 1])"
  by code_simp

text \<open>
  C2. For a node \<open>c\<close> that its constructor accepts, of a length that is not negative,
  \<open>c.merge(Empty)\<close> returns a node with the length of \<open>c\<close> and the row of \<open>c\<close> at each
  position, given that the classes outside the three files do so.
\<close>

theorem C2_merge_Empty:
  assumes "ctor_invariant c" and "0 \<le> length_of X c"
    and "\<And>c'. outside c' \<Longrightarrow> 0 \<le> length_of X c' \<Longrightarrow>
           \<exists>r. x_merge X c' (EmptyArray oids ops) = Inr r \<and> same_rows X r c'"
  shows "\<exists>r. merge X c (EmptyArray oids ops) = Inr r \<and> same_rows X r c"
proof (cases c)
  case (RecordArray ids ps cs rl n)
  show ?thesis
  proof (cases "parameters_equal ps ops")
    case True
    have "merge X c (EmptyArray oids ops) = RecordArray_ctor ids ps cs rl n"
      using True unfolding RecordArray
      by (cases "record_depth (RecordArray ids ps cs rl n)")
         (simp_all add: merge_def RecordArray_merge_def)
    then have "merge X c (EmptyArray oids ops) = Inr c"
      using assms(1) unfolding RecordArray by (simp add: RecordArray_ctor_invariant)
    then show ?thesis by (simp add: same_rows_refl)
  next
    case False
    then have "merge X c (EmptyArray oids ops) = merge_as_union X c (EmptyArray oids ops)"
      unfolding RecordArray by (simp add: merge_RecordArray_differ)
    then show ?thesis
      using same_rows_merge_as_union [OF assms(2), of oids ops]
      by (simp add: merge_as_union_def Let_def)
  qed
next
  case (UnionArrayOf k ids ps tags index cs)
  show ?thesis
  proof (cases "parameters_equal ps ops")
    case True
    have "merge X c (EmptyArray oids ops) = Inr c"
      using True assms(1) unfolding UnionArrayOf
      by (simp add: merge_UnionArrayOf UnionArrayOf_merge_def UnionArrayOf_ctor_def)
    then show ?thesis by (simp add: same_rows_refl)
  next
    case False
    then have "merge X c (EmptyArray oids ops) = merge_as_union X c (EmptyArray oids ops)"
      unfolding UnionArrayOf by (simp add: merge_UnionArrayOf UnionArrayOf_merge_def)
    then show ?thesis
      using same_rows_merge_as_union [OF assms(2), of oids ops]
      by (simp add: merge_as_union_def Let_def)
  qed
next
  case (UnmaskedArray ids ps c0)
  let ?io = "IndexedArrayOf IndexedOptionArray64 ids ps (map int [0..<nat (length_of X c0)]) c0"
  have len: "0 \<le> length_of X c0" using assms(2) UnmaskedArray by simp
  have m: "merge X c (EmptyArray oids ops) = x_merge X ?io (EmptyArray oids ops)"
    unfolding UnmaskedArray
    by (simp add: merge_UnmaskedArray UnmaskedArray_merge_def
          UnmaskedArray_toIndexedOptionArray64_def awkward_carry_arange_64_def)
  have "outside ?io" "0 \<le> length_of X ?io" by (simp_all add: outside_def)
  then obtain r where r: "x_merge X ?io (EmptyArray oids ops) = Inr r" "same_rows X r ?io"
    using assms(3) by blast
  have "same_rows X ?io c"
    unfolding UnmaskedArray by (rule same_rows_toIndexedOptionArray64 [OF len])
  then show ?thesis using m r same_rows_trans by auto
qed (insert assms, auto simp: merge_outside outside_def)

text \<open>C2 at a record with parameters, merged with an \<open>Empty\<close> without.\<close>

theorem C2_witness:
  "ctor_invariant (RecordArray None [(''a'', ''b'')] [RecordArray None [] [] None 3] (Some [''x'']) 2)
   \<and> 0 \<le> length_of ext0
             (RecordArray None [(''a'', ''b'')] [RecordArray None [] [] None 3] (Some [''x'']) 2)
   \<and> (\<exists>r. merge ext0
              (RecordArray None [(''a'', ''b'')] [RecordArray None [] [] None 3] (Some [''x'']) 2)
              (EmptyArray None []) = Inr r
         \<and> same_rows ext0 r
              (RecordArray None [(''a'', ''b'')] [RecordArray None [] [] None 3] (Some [''x'']) 2))"
  using C2_merge_Empty [of
      "RecordArray None [(''a'', ''b'')] [RecordArray None [] [] None 3] (Some [''x'']) 2"
      ext0 None "[]", OF _ _ ext0_merge_Empty]
  by simp


text \<open>
  C7. For a head that is an \<open>At\<close>, a \<open>Range\<close>, an \<open>Array\<close> or a \<open>Jagged\<close> item (and an
  index no shorter than the tags), \<open>getitem_next\<close> of a union is \<open>simplify_uniontype(false)\<close>
  of the union built with the tags of the node, the regular index of those tags and, as
  content \<open>i\<close>, \<open>getitem_next\<close> of \<open>project(i)\<close>; and \<open>project(i)\<close> is \<open>contents[i].carry\<close>
  over the index values of the rows whose tag is \<open>i\<close>.
\<close>

theorem C7_UnionArray_getitem_next:
  assumes "addresses_elements h" and "length tags \<le> length index"
  shows "UnionArrayOf_getitem_next X G k ids ps tags index contents (Some h) tail advanced
           = getitem_next_by_projection X G k ids ps tags index contents (Some h) tail advanced
       \<and> (\<forall>i<length contents.
             UnionArrayOf_project X k ids ps tags index contents (int i)
               = carry X (contents ! i) (project_rows tags index (int i)))"
proof -
  let ?f = "\<lambda>i. case UnionArrayOf_project X k ids ps tags index contents (int i) of
                   Inl e \<Rightarrow> Inl e
                 | Inr projection \<Rightarrow> G projection (Some h) tail advanced"
  let ?g = "\<lambda>i. case carry X (contents ! i) (project_rows tags index (int i)) of
                   Inl e \<Rightarrow> Inl e
                 | Inr projection \<Rightarrow> G projection (Some h) tail advanced"
  have body: "(\<lambda>outcontents i.
                 case UnionArrayOf_project X k ids ps tags index contents (int i) of
                   Inl e \<Rightarrow> Inl e
                 | Inr projection \<Rightarrow>
                     (case G projection (Some h) tail advanced of
                        Inl e \<Rightarrow> Inl e
                      | Inr c \<Rightarrow> Inr (outcontents @ [c])))
              = (\<lambda>outcontents i. case ?f i of Inl e \<Rightarrow> Inl e | Inr y \<Rightarrow> Inr (outcontents @ [y]))"
    by (intro ext) (simp split: sum.splits)
  have loop: "foldM
                (\<lambda>outcontents i.
                   case UnionArrayOf_project X k ids ps tags index contents (int i) of
                     Inl e \<Rightarrow> Inl e
                   | Inr projection \<Rightarrow>
                       (case G projection (Some h) tail advanced of
                          Inl e \<Rightarrow> Inl e
                        | Inr c \<Rightarrow> Inr (outcontents @ [c])))
                [] [0..<length contents]
              = mapM ?f [0..<length contents]"
    unfolding body foldM_push_back by (simp split: sum.splits)
  have same: "mapM ?f [0..<length contents] = mapM ?g [0..<length contents]"
    by (rule mapM_cong) (simp_all add: UnionArrayOf_project_rows [OF assms(2)])
  have "UnionArrayOf_getitem_next X G k ids ps tags index contents (Some h) tail advanced
           = getitem_next_by_projection X G k ids ps tags index contents (Some h) tail advanced"
    using assms(1)
    by (simp add: UnionArrayOf_getitem_next_def getitem_next_by_projection_def loop same Let_def
             cong: sum.case_cong)
  then show ?thesis
    using UnionArrayOf_project_rows [OF assms(2)] by blast
qed

text \<open>C7 at a union of three rows over two records.\<close>

theorem C7_witness:
  "addresses_elements (SliceRange 0 3 1)
   \<and> length [0, 1, 0 :: int] \<le> length [0, 0, 1 :: int]
   \<and> UnionArrayOf_getitem_next ext0 G0 UnionArray8_64 None [] [0, 1, 0] [0, 0, 1]
         [RecordArray None [] [] None 2, RecordArray None [(''a'', ''b'')] [] None 1]
         (Some (SliceRange 0 3 1)) [] []
       = Inr (UnionArrayOf UnionArray8_64 None [] [0, 1, 0] [0, 0, 1]
                [RecordArray None [] [] None 2, RecordArray None [(''a'', ''b'')] [] None 1])
   \<and> UnionArrayOf_project ext0 UnionArray8_64 None [] [0, 1, 0] [0, 0, 1]
         [RecordArray None [] [] None 2, RecordArray None [(''a'', ''b'')] [] None 1] 0
       = Inr (RecordArray None [] [] None 2)"
proof -
  have a: "addresses_elements (SliceRange 0 3 1)" by simp
  have l: "length [0, 1, 0 :: int] \<le> length [0, 0, 1 :: int]" by simp
  have v: "getitem_next_by_projection ext0 G0 UnionArray8_64 None [] [0, 1, 0] [0, 0, 1]
         [RecordArray None [] [] None 2, RecordArray None [(''a'', ''b'')] [] None 1]
         (Some (SliceRange 0 3 1)) [] []
       = Inr (UnionArrayOf UnionArray8_64 None [] [0, 1, 0] [0, 0, 1]
                [RecordArray None [] [] None 2, RecordArray None [(''a'', ''b'')] [] None 1])"
    by code_simp
  have p: "carry ext0 (RecordArray None [] [] None 2) (project_rows [0, 1, 0] [0, 0, 1] 0)
             = Inr (RecordArray None [] [] None 2)"
    by code_simp
  note t = C7_UnionArray_getitem_next [OF a l, of ext0 G0 UnionArray8_64 None "[]"
      "[RecordArray None [] [] None 2, RecordArray None [(''a'', ''b'')] [] None 1]" "[]" "[]"]
  from t have 1: "UnionArrayOf_getitem_next ext0 G0 UnionArray8_64 None [] [0, 1, 0] [0, 0, 1]
         [RecordArray None [] [] None 2, RecordArray None [(''a'', ''b'')] [] None 1]
         (Some (SliceRange 0 3 1)) [] []
       = Inr (UnionArrayOf UnionArray8_64 None [] [0, 1, 0] [0, 0, 1]
                [RecordArray None [] [] None 2, RecordArray None [(''a'', ''b'')] [] None 1])"
    using v by simp
  have z: "0 < length [RecordArray None [] [] None 2, RecordArray None [(''a'', ''b'')] [] None 1]"
    by simp
  from t have "\<forall>i<length [RecordArray None [] [] None 2,
                          RecordArray None [(''a'', ''b'')] [] None 1].
         UnionArrayOf_project ext0 UnionArray8_64 None [] [0, 1, 0] [0, 0, 1]
           [RecordArray None [] [] None 2, RecordArray None [(''a'', ''b'')] [] None 1] (int i)
       = carry ext0 ([RecordArray None [] [] None 2,
                      RecordArray None [(''a'', ''b'')] [] None 1] ! i)
           (project_rows [0, 1, 0] [0, 0, 1] (int i))"
    by (rule conjunct2)
  from this [rule_format, OF z] have 2: "UnionArrayOf_project ext0 UnionArray8_64 None [] [0, 1, 0] [0, 0, 1]
         [RecordArray None [] [] None 2, RecordArray None [(''a'', ''b'')] [] None 1] 0
       = Inr (RecordArray None [] [] None 2)"
    using p by simp
  show ?thesis using a l 1 2 by blast
qed

text \<open>
  C8. \<open>offsets_and_flattened\<close> of a record, of a union and of an unmasked node throws
  \<open>invalid_argument\<close> when the axis is the depth; of a record also when the axis is the
  depth plus one; and of a record, for an axis beyond that, \<open>runtime_error\<close> when the call
  on a field returns offsets that are not empty (the fields before it having returned empty
  ones). The axis is one that \<open>axis_wrap_if_negative\<close> returns as it is.
\<close>

theorem C8_offsets_and_flattened_errors:
  "(x_axis_wrap_if_negative X (RecordArray ids ps cs rl n) depth = Inr depth \<longrightarrow>
      RecordArray_offsets_and_flattened X F ids ps cs rl n depth depth
        = Inl (invalid_argument ''axis=0 not allowed for flatten''))
   \<and> (x_axis_wrap_if_negative X (UnionArrayOf k uids ups tags index ucs) depth = Inr depth \<longrightarrow>
      UnionArrayOf_offsets_and_flattened X F k uids ups tags index ucs depth depth
        = Inl (invalid_argument ''axis=0 not allowed for flatten''))
   \<and> (x_axis_wrap_if_negative X (UnmaskedArray mids mps c) depth = Inr depth \<longrightarrow>
      UnmaskedArray_offsets_and_flattened X F mids mps c depth depth
        = Inl (invalid_argument ''axis=0 not allowed for flatten''))
   \<and> (x_axis_wrap_if_negative X (RecordArray ids ps cs rl n) (depth + 1) = Inr (depth + 1) \<longrightarrow>
      RecordArray_offsets_and_flattened X F ids ps cs rl n (depth + 1) depth
        = Inl (invalid_argument
                 ''arrays of records cannot be flattened (but their contents can be; try a different 'axis')''))
   \<and> (depth + 1 < axis \<longrightarrow>
      x_axis_wrap_if_negative X (RecordArray ids ps cs rl n) axis = Inr axis \<longrightarrow>
      i < length cs \<longrightarrow>
      (\<forall>j<i. \<exists>t fl. getitem_range X (cs ! j) 0 n = Inr t \<and> F t axis depth = Inr ([], fl)) \<longrightarrow>
      getitem_range X (cs ! i) 0 n = Inr trimmed \<longrightarrow>
      F trimmed axis depth = Inr (offsets, flattened) \<longrightarrow>
      offsets \<noteq> [] \<longrightarrow>
      RecordArray_offsets_and_flattened X F ids ps cs rl n axis depth
        = Inl (runtime_error
                 ''RecordArray content with axis > depth + 1 returned a non-empty offsets from offsets_and_flattened''))"
proof (intro conjI impI)
  let ?f = "\<lambda>c. case getitem_range X c 0 n of
                   Inl e \<Rightarrow> Inl e
                 | Inr trimmed \<Rightarrow>
                     (case F trimmed axis depth of
                        Inl e \<Rightarrow> Inl e
                      | Inr (offsets, flattened) \<Rightarrow>
                          if length offsets \<noteq> 0
                          then Inl (runtime_error
                                      ''RecordArray content with axis > depth + 1 returned a non-empty offsets from offsets_and_flattened'')
                          else Inr flattened)"
  assume ax: "depth + 1 < axis"
    and w: "x_axis_wrap_if_negative X (RecordArray ids ps cs rl n) axis = Inr axis"
    and i: "i < length cs"
    and before: "\<forall>j<i. \<exists>t fl. getitem_range X (cs ! j) 0 n = Inr t \<and> F t axis depth = Inr ([], fl)"
    and t: "getitem_range X (cs ! i) 0 n = Inr trimmed"
    and f: "F trimmed axis depth = Inr (offsets, flattened)"
    and o: "offsets \<noteq> []"
  have ok: "\<forall>j<i. \<exists>y. ?f (cs ! j) = Inr y"
  proof (intro allI impI)
    fix j assume "j < i"
    then obtain t fl where "getitem_range X (cs ! j) 0 n = Inr t" "F t axis depth = Inr ([], fl)"
      using before by blast
    then show "\<exists>y. ?f (cs ! j) = Inr y" by simp
  qed
  have bad: "?f (cs ! i) = Inl (runtime_error
      ''RecordArray content with axis > depth + 1 returned a non-empty offsets from offsets_and_flattened'')"
    using t f o by simp
  have "mapM ?f cs = Inl (runtime_error
      ''RecordArray content with axis > depth + 1 returned a non-empty offsets from offsets_and_flattened'')"
    by (rule mapM_first_error [OF i ok bad])
  then show "RecordArray_offsets_and_flattened X F ids ps cs rl n axis depth
        = Inl (runtime_error
                 ''RecordArray content with axis > depth + 1 returned a non-empty offsets from offsets_and_flattened'')"
    using ax w by (simp add: RecordArray_offsets_and_flattened_def)
qed (simp_all add: RecordArray_offsets_and_flattened_def UnionArrayOf_offsets_and_flattened_def
       UnmaskedArray_offsets_and_flattened_def)

text \<open>C8 at a record whose second field is a union over lists, which returns offsets.\<close>

theorem C8_witness:
  "x_axis_wrap_if_negative ext0
       (RecordArray None [] [RecordArray None [] [] None 2, lists_union] None 2) 0 = Inr 0
   \<and> RecordArray_offsets_and_flattened ext0 F0 None []
         [RecordArray None [] [] None 2, lists_union] None 2 0 0
       = Inl (invalid_argument ''axis=0 not allowed for flatten'')
   \<and> UnionArrayOf_offsets_and_flattened ext0 F0 UnionArray8_64 None [] [0] [0]
         [RecordArray None [] [] None 1] 0 0
       = Inl (invalid_argument ''axis=0 not allowed for flatten'')
   \<and> UnmaskedArray_offsets_and_flattened ext0 F0 None [] (RecordArray None [] [] None 1) 0 0
       = Inl (invalid_argument ''axis=0 not allowed for flatten'')
   \<and> RecordArray_offsets_and_flattened ext0 F0 None []
         [RecordArray None [] [] None 2, lists_union] None 2 (0 + 1) 0
       = Inl (invalid_argument
                ''arrays of records cannot be flattened (but their contents can be; try a different 'axis')'')
   \<and> getitem_range ext0 lists_union 0 2 = Inr lists_union
   \<and> F0 lists_union 2 0 = Inr ([0, 1, 3], lists_union)
   \<and> RecordArray_offsets_and_flattened ext0 F0 None []
         [RecordArray None [] [] None 2, lists_union] None 2 2 0
       = Inl (runtime_error
                ''RecordArray content with axis > depth + 1 returned a non-empty offsets from offsets_and_flattened'')"
proof -
  let ?R = "RecordArray None [] [] None 2"
  have w0: "x_axis_wrap_if_negative ext0 (RecordArray None [] [?R, lists_union] None 2) 0 = Inr 0"
    and w1: "x_axis_wrap_if_negative ext0 (RecordArray None [] [?R, lists_union] None 2) (0 + 1)
               = Inr (0 + 1)"
    and w2: "x_axis_wrap_if_negative ext0 (RecordArray None [] [?R, lists_union] None 2) 2 = Inr 2"
    and wu: "x_axis_wrap_if_negative ext0
               (UnionArrayOf UnionArray8_64 None [] [0] [0] [RecordArray None [] [] None 1]) 0 = Inr 0"
    and wm: "x_axis_wrap_if_negative ext0 (UnmaskedArray None [] (RecordArray None [] [] None 1)) 0
               = Inr 0"
    by (simp_all add: ext0_def ext_base_def)
  have r0: "getitem_range ext0 ?R 0 2 = Inr ?R" by code_simp
  have r1: "getitem_range ext0 lists_union 0 2 = Inr lists_union" by code_simp
  have f0: "F0 ?R 2 0 = Inr ([], ?R)" by (simp add: F0_def)
  have f1: "F0 lists_union 2 0 = Inr ([0, 1, 3], lists_union)"
    by (simp add: F0_def lists_union_def)
  have before: "\<forall>j<1. \<exists>t fl. getitem_range ext0 ([?R, lists_union] ! j) 0 2 = Inr t
                         \<and> F0 t 2 0 = Inr ([], fl)"
    using r0 f0 by simp
  note t = C8_offsets_and_flattened_errors [where X = ext0 and F = F0 and ids = None
      and ps = "[]" and cs = "[?R, lists_union]" and rl = None and n = 2 and depth = 0
      and k = UnionArray8_64 and uids = None and ups = "[]" and tags = "[0]" and index = "[0]"
      and ucs = "[RecordArray None [] [] None 1]" and mids = None and mps = "[]"
      and c = "RecordArray None [] [] None 1" and axis = 2 and i = 1
      and trimmed = lists_union and offsets = "[0, 1, 3]" and flattened = lists_union]
  have 1: "RecordArray_offsets_and_flattened ext0 F0 None [] [?R, lists_union] None 2 0 0
       = Inl (invalid_argument ''axis=0 not allowed for flatten'')"
    using t w0 by blast
  have 2: "UnionArrayOf_offsets_and_flattened ext0 F0 UnionArray8_64 None [] [0] [0]
         [RecordArray None [] [] None 1] 0 0
       = Inl (invalid_argument ''axis=0 not allowed for flatten'')"
    using t wu by blast
  have 3: "UnmaskedArray_offsets_and_flattened ext0 F0 None [] (RecordArray None [] [] None 1) 0 0
       = Inl (invalid_argument ''axis=0 not allowed for flatten'')"
    using t wm by blast
  have 4: "RecordArray_offsets_and_flattened ext0 F0 None [] [?R, lists_union] None 2 (0 + 1) 0
       = Inl (invalid_argument
                ''arrays of records cannot be flattened (but their contents can be; try a different 'axis')'')"
    using t w1 by blast
  have 5: "RecordArray_offsets_and_flattened ext0 F0 None [] [?R, lists_union] None 2 2 0
       = Inl (runtime_error
                ''RecordArray content with axis > depth + 1 returned a non-empty offsets from offsets_and_flattened'')"
    using t w2 before r1 f1 by simp
  show ?thesis using w0 1 2 3 4 r1 f1 5 by blast
qed


text \<open>
  C3. When \<open>c1.merge(c2)\<close> returns, the result has the length of \<open>c1\<close> plus the length of
  \<open>c2\<close>: for records, unions and unmasked nodes by the code of the three files, given that
  the classes outside them keep the same law and that the nodes are well formed (a record no
  longer than its fields, a union with an index no shorter than its tags, no negative length).
\<close>

theorem C3_merge_length:
  assumes "outside_laws X" and "valid X c1" and "valid X c2" and "merge X c1 c2 = Inr r"
  shows "length_of X r = length_of X c1 + length_of X c2"
proof -
  have "merge_law X (merge_d (record_depth c1) X)" by (rule merge_d_law [OF assms(1)])
  then show ?thesis using assms(2-4) unfolding merge_law_def merge_def by blast
qed

text \<open>C3 at two records with the key \<open>x\<close>, of two rows and of one row; the field of the first
  is a union of three rows, which the merge cuts to two.\<close>

theorem C3_witness:
  "outside_laws ext0
   \<and> valid ext0 (RecordArray None []
        [UnionArrayOf UnionArray8_64 None [] [0, 0, 0] [0, 1, 2]
           [OtherArray ''NumpyArray'' None [] [[1, 2, 3]] []]] (Some [''x'']) 2)
   \<and> valid ext0 (RecordArray None []
        [OtherArray ''NumpyArray'' None [] [[5]] []] (Some [''x'']) 1)
   \<and> merge ext0
        (RecordArray None []
           [UnionArrayOf UnionArray8_64 None [] [0, 0, 0] [0, 1, 2]
              [OtherArray ''NumpyArray'' None [] [[1, 2, 3]] []]] (Some [''x'']) 2)
        (RecordArray None []
           [OtherArray ''NumpyArray'' None [] [[5]] []] (Some [''x'']) 1)
       = Inr (RecordArray None []
                [UnionArrayOf UnionArray8_64 None [] [0, 0, 1] [0, 1, 0]
                   [OtherArray ''NumpyArray'' None [] [[1, 2, 3]] [],
                    OtherArray ''NumpyArray'' None [] [[5]] []]] (Some [''x'']) 3)
   \<and> length_of ext0 (RecordArray None []
                [UnionArrayOf UnionArray8_64 None [] [0, 0, 1] [0, 1, 0]
                   [OtherArray ''NumpyArray'' None [] [[1, 2, 3]] [],
                    OtherArray ''NumpyArray'' None [] [[5]] []]] (Some [''x'']) 3)
       = length_of ext0 (RecordArray None []
           [UnionArrayOf UnionArray8_64 None [] [0, 0, 0] [0, 1, 2]
              [OtherArray ''NumpyArray'' None [] [[1, 2, 3]] []]] (Some [''x'']) 2)
         + length_of ext0 (RecordArray None []
           [OtherArray ''NumpyArray'' None [] [[5]] []] (Some [''x'']) 1)"
proof -
  let ?c1 = "RecordArray None []
        [UnionArrayOf UnionArray8_64 None [] [0, 0, 0] [0, 1, 2]
           [OtherArray ''NumpyArray'' None [] [[1, 2, 3]] []]] (Some [''x'']) 2"
  let ?c2 = "RecordArray None []
        [OtherArray ''NumpyArray'' None [] [[5]] []] (Some [''x'']) 1"
  let ?r = "RecordArray None []
                [UnionArrayOf UnionArray8_64 None [] [0, 0, 1] [0, 1, 0]
                   [OtherArray ''NumpyArray'' None [] [[1, 2, 3]] [],
                    OtherArray ''NumpyArray'' None [] [[5]] []]] (Some [''x'']) 3"
  have v1: "valid ext0 ?c1" by code_simp
  have v2: "valid ext0 ?c2" by code_simp
  have m: "merge ext0 ?c1 ?c2 = Inr ?r" by code_simp
  have "length_of ext0 ?r = length_of ext0 ?c1 + length_of ext0 ?c2"
    by (rule C3_merge_length [OF outside_laws_ext0 v1 v2 m])
  then show ?thesis using outside_laws_ext0 v1 v2 m by blast
qed


end
